theory Spec2Isabelle
  imports Complex_Main
begin

section \<open>GOJI: payroll calculator and heuristic analytics service\<close>

text \<open>
  A shallow embedding of the payroll computation of the payroll page
  (\<^verbatim>\<open>calculatePayroll\<close>) and of the analytics functions of the service module
  (\<^verbatim>\<open>categorizeExpense\<close>, \<^verbatim>\<open>detectAnomaly\<close>, \<^verbatim>\<open>predictCashFlow\<close>,
  \<^verbatim>\<open>analyzeSpendingPatterns\<close>, \<^verbatim>\<open>calculateHealthScore\<close>).

  Numbers. A JavaScript number is a binary double. A finite input is a \<^typ>\<open>real\<close>.
  \<^item> In \<^verbatim>\<open>detectAnomaly\<close> and \<^verbatim>\<open>calculateHealthScore\<close> a result is a comparison of
    computed numbers with a threshold, so every arithmetic operation is rounded as the
    double arithmetic rounds it (function \<open>fl\<close>: to the nearest double, ties to the even
    one). In \<^verbatim>\<open>detectAnomaly\<close>, where squares of amounts can overflow, the special
    values are modelled too (functions \<open>dbl_\<dots>\<close>). In \<^verbatim>\<open>calculateHealthScore\<close> every
    quantity is bounded except the monthly sums of amounts, which are taken to stay
    below \<open>2\<^sup>1\<^sup>0\<^sup>2\<^sup>4\<close>.
  \<^item> In \<^verbatim>\<open>predictCashFlow\<close> and \<^verbatim>\<open>analyzeSpendingPatterns\<close> a division can have a zero
    divisor: the special values are modelled (type \<open>jsnum\<close>) and the finite values are
    exact.
  \<^item> In \<^verbatim>\<open>calculatePayroll\<close> and in the confidence of \<^verbatim>\<open>categorizeExpense\<close> the finite
    values are exact.
  The sign of zero is not modelled.

  Dates. The source parses \<^verbatim>\<open>expense_date\<close> with the runtime's \<^verbatim>\<open>Date\<close> and reads the
  clock with \<^verbatim>\<open>new Date()\<close>. The model carries the parsed date (record \<open>jsdate\<close>) in the
  expense and takes the clock's readings as parameters.
\<close>

subsection \<open>Records of the application (the fields the modelled functions read)\<close>

record jsdate =
  getFullYear :: int
  getMonth :: nat   \<comment> \<open>0-based, as in JavaScript\<close>
  getTime :: int

datatype expense_status = pending | approved | rejected

record expense =
  title :: string
  description :: string
  amount :: real
  category :: string
  expense_date :: jsdate
  status :: expense_status
  is_anomaly :: bool

record budget =
  category :: string
  monthly_limit :: real
  is_active :: bool

record employee =
  employee_id :: string
  base_salary :: real
  is_active :: bool

text \<open>The form state of the payroll page (\<^verbatim>\<open>formData\<close>).\<close>

record formData =
  overtime_hours :: real
  bonus :: real
  allowances :: real
  tax :: real
  insurance :: real
  provident_fund :: real
  loan_repayment :: real
  other_deductions :: real
  paid_leaves :: real
  unpaid_leaves :: real

text \<open>The object returned by \<^verbatim>\<open>calculatePayroll\<close>.\<close>

record calculated =
  base_salary :: real
  overtime_pay :: real
  gross_salary :: real
  tax :: real
  insurance :: real
  provident_fund :: real
  total_deductions :: real
  leave_deduction :: real
  net_salary :: real

subsection \<open>Payroll calculator\<close>

text \<open>\<^verbatim>\<open>a || b\<close> on numbers: \<open>0\<close> is falsy, every other finite number is truthy.\<close>

definition js_or :: "real \<Rightarrow> real \<Rightarrow> real" where
  "js_or a b = (if a \<noteq> 0 then a else b)"

text \<open>
  \<^verbatim>\<open>calculatePayroll\<close> reads the selected employee (\<^verbatim>\<open>null\<close> when none is selected) and
  the form state; it returns \<^verbatim>\<open>null\<close> without a selected employee.
\<close>

definition calculatePayroll :: "employee option \<Rightarrow> formData \<Rightarrow> calculated option" where
  "calculatePayroll selectedEmployee fd =
     (case selectedEmployee of
        None \<Rightarrow> None
      | Some emp \<Rightarrow>
          (let baseSalary = employee.base_salary emp;
               overtimePay = overtime_hours fd * (baseSalary / 176) * 1.5;
               grossSalary = baseSalary + overtimePay + bonus fd + allowances fd;
               tax = js_or (formData.tax fd) (grossSalary * 0.15);
               insurance = js_or (formData.insurance fd) 150;
               providentFund = js_or (formData.provident_fund fd) (grossSalary * 0.08);
               totalDeductions =
                 tax + insurance + providentFund + loan_repayment fd + other_deductions fd;
               leaveDeduction = (baseSalary / 22) * unpaid_leaves fd;
               netSalary = grossSalary - totalDeductions - leaveDeduction
           in Some \<lparr> calculated.base_salary = baseSalary,
                     overtime_pay = overtimePay,
                     gross_salary = grossSalary,
                     calculated.tax = tax,
                     calculated.insurance = insurance,
                     calculated.provident_fund = providentFund,
                     total_deductions = totalDeductions,
                     leave_deduction = leaveDeduction,
                     net_salary = netSalary \<rparr>))"

subsection \<open>Categorizer\<close>

text \<open>
  The keyword table, as an association list in declaration order:
  \<^verbatim>\<open>Object.entries\<close> enumerates these keys in the order they are written.
\<close>

definition categoryKeywords :: "(string \<times> string list) list" where
  "categoryKeywords =
     [(''marketing'', [''ad'', ''ads'', ''marketing'', ''campaign'', ''social media'', ''facebook'',
                      ''google ads'', ''seo'', ''ppc'']),
      (''software'', [''aws'', ''cloud'', ''saas'', ''software'', ''subscription'', ''license'',
                     ''github'', ''azure'', ''heroku'', ''digital ocean'']),
      (''rent'', [''rent'', ''lease'', ''office space'', ''property'', ''landlord'']),
      (''utilities'', [''electric'', ''electricity'', ''water'', ''gas'', ''internet'', ''phone'',
                      ''utility'']),
      (''travel'', [''flight'', ''hotel'', ''airbnb'', ''uber'', ''lyft'', ''airline'', ''travel'',
                   ''transportation'']),
      (''office_supplies'', [''office'', ''supplies'', ''stationery'', ''furniture'', ''equipment'',
                            ''depot'']),
      (''payroll'', [''salary'', ''wage'', ''payroll'', ''compensation'']),
      (''other'', [])]"

text \<open>
  Strings are lists of 8-bit characters; \<^verbatim>\<open>toLowerCase\<close> maps the letters A to Z to a to z
  and leaves every other character as it is.
\<close>

definition toLowerCase_char :: "char \<Rightarrow> char" where
  "toLowerCase_char c =
     (let n = (of_char c :: nat) in if 65 \<le> n \<and> n \<le> 90 then char_of (n + 32) else c)"

definition toLowerCase :: "string \<Rightarrow> string" where
  "toLowerCase s = map toLowerCase_char s"

fun startsWith :: "string \<Rightarrow> string \<Rightarrow> bool" where
  "startsWith t [] = True"
| "startsWith [] (k # ks) = False"
| "startsWith (t # ts) (k # ks) = (t = k \<and> startsWith ts ks)"

text \<open>\<^verbatim>\<open>text.includes(keyword)\<close>: the keyword occurs at some position of the text.\<close>

fun js_includes :: "string \<Rightarrow> string \<Rightarrow> bool" where
  "js_includes [] k = startsWith [] k"
| "js_includes (t # ts) k = (startsWith (t # ts) k \<or> js_includes ts k)"

text \<open>The inner loop: one point for each keyword of the list that the text includes.\<close>

definition keywordScore :: "string \<Rightarrow> string list \<Rightarrow> nat" where
  "keywordScore txt keywords =
     foldl (\<lambda>score keyword. if js_includes txt (toLowerCase keyword) then score + 1 else score)
       0 keywords"

text \<open>
  One round of the outer loop on the state \<open>(bestCategory, bestScore)\<close>: the entry
  \<^verbatim>\<open>other\<close> is skipped, and a category replaces the best one only with a strictly
  greater score.
\<close>

definition categorizeStep :: "string \<Rightarrow> string \<times> nat \<Rightarrow> string \<times> string list \<Rightarrow> string \<times> nat" where
  "categorizeStep txt best entry =
     (if fst entry = ''other'' then best
      else let score = keywordScore txt (snd entry)
           in if score > snd best then (fst entry, score) else best)"

record categorized =
  category :: string
  confidence :: real

definition categorizeExpense :: "string \<Rightarrow> string \<Rightarrow> real \<Rightarrow> categorized" where
  "categorizeExpense title' description' amount' =
     (let txt = toLowerCase (title' @ '' '' @ description');
          best = foldl (categorizeStep txt) (''other'', 0) categoryKeywords;
          bestCategory = fst best;
          bestScore = snd best;
          confidence = (if bestScore > 0 then min (0.7 + real bestScore * 0.1) 0.98 else 0.5)
      in \<lparr> categorized.category = bestCategory, confidence = confidence \<rparr>)"

text \<open>
  What the specification counts: the candidate categories (every entry but \<^verbatim>\<open>other\<close>)
  and, for a text, the number of a category's keywords that occur in it.
\<close>

definition candidates :: "(string \<times> string list) list" where
  "candidates = filter (\<lambda>entry. fst entry \<noteq> ''other'') categoryKeywords"

definition matchCount :: "string \<Rightarrow> string list \<Rightarrow> nat" where
  "matchCount txt keywords = length (filter (\<lambda>k. js_includes txt (toLowerCase k)) keywords)"







subsection \<open>Numbers with the special values\<close>

text \<open>
  A JavaScript number where a division by zero can occur: a finite value, plus or minus
  infinity, or not-a-number. The zero divisors of the modelled code are sums of a
  \<^verbatim>\<open>reduce\<close> that starts from \<open>0\<close>, hence positive zeros, so the sign of the quotient
  is the sign of the dividend.
\<close>

datatype jsnum = Fin real | PosInf | NegInf | NaN

text \<open>\<^verbatim>\<open>a / b\<close> for finite \<open>a\<close> and \<open>b\<close>.\<close>

definition js_divide :: "real \<Rightarrow> real \<Rightarrow> jsnum" where
  "js_divide a b =
     (if b \<noteq> 0 then Fin (a / b)
      else if a = 0 then NaN
      else if a > 0 then PosInf else NegInf)"

fun js_plus :: "jsnum \<Rightarrow> jsnum \<Rightarrow> jsnum" where
  "js_plus (Fin a) (Fin b) = Fin (a + b)"
| "js_plus NaN y = NaN"
| "js_plus x NaN = NaN"
| "js_plus PosInf NegInf = NaN"
| "js_plus NegInf PosInf = NaN"
| "js_plus PosInf y = PosInf"
| "js_plus x PosInf = PosInf"
| "js_plus NegInf y = NegInf"
| "js_plus x NegInf = NegInf"

fun js_negate :: "jsnum \<Rightarrow> jsnum" where
  "js_negate (Fin a) = Fin (- a)"
| "js_negate PosInf = NegInf"
| "js_negate NegInf = PosInf"
| "js_negate NaN = NaN"

definition js_minus :: "jsnum \<Rightarrow> jsnum \<Rightarrow> jsnum" where
  "js_minus x y = js_plus x (js_negate y)"

text \<open>\<^verbatim>\<open>x * c\<close> for a finite \<open>c\<close>.\<close>

fun js_times :: "jsnum \<Rightarrow> real \<Rightarrow> jsnum" where
  "js_times (Fin a) c = Fin (a * c)"
| "js_times PosInf c = (if c > 0 then PosInf else if c < 0 then NegInf else NaN)"
| "js_times NegInf c = (if c > 0 then NegInf else if c < 0 then PosInf else NaN)"
| "js_times NaN c = NaN"

text \<open>\<^verbatim>\<open>Math.round\<close>: the nearest integer, a half rounded up.\<close>

fun js_round :: "jsnum \<Rightarrow> jsnum" where
  "js_round (Fin a) = Fin (of_int \<lfloor>a + 1 / 2\<rfloor>)"
| "js_round x = x"

fun js_abs :: "jsnum \<Rightarrow> jsnum" where
  "js_abs (Fin a) = Fin \<bar>a\<bar>"
| "js_abs NegInf = PosInf"
| "js_abs x = x"

text \<open>\<^verbatim>\<open>x > c\<close> for a finite \<open>c\<close>; every comparison with not-a-number is false.\<close>

fun js_greater :: "jsnum \<Rightarrow> real \<Rightarrow> bool" where
  "js_greater (Fin a) c = (a > c)"
| "js_greater PosInf c = True"
| "js_greater NegInf c = False"
| "js_greater NaN c = False"

text \<open>
  The decimal digits of a natural number, and the text that a template literal gives a
  number that \<^verbatim>\<open>Math.round\<close> returned (an integer below \<open>10\<^sup>2\<^sup>1\<close> in absolute value,
  or a special value).
\<close>

function digitsOf :: "nat \<Rightarrow> string" where
  "digitsOf n =
     (if n < 10 then [''0123456789'' ! n]
      else digitsOf (n div 10) @ [''0123456789'' ! (n mod 10)])"
  by pat_completeness auto
termination
  by (relation "measure id") auto

declare digitsOf.simps [simp del]

fun js_roundedToString :: "jsnum \<Rightarrow> string" where
  "js_roundedToString (Fin a) =
     (if \<lfloor>a\<rfloor> < 0 then ''-'' @ digitsOf (nat (- \<lfloor>a\<rfloor>)) else digitsOf (nat \<lfloor>a\<rfloor>))"
| "js_roundedToString PosInf = ''Infinity''"
| "js_roundedToString NegInf = ''-Infinity''"
| "js_roundedToString NaN = ''NaN''"

subsection \<open>Double-precision rounding\<close>

text \<open>
  The binary exponent of a positive number \<open>x\<close>: the integer \<open>e\<close> with
  \<open>2\<^sup>e \<le> x < 2\<^sup>e\<^sup>+\<^sup>1\<close>, found by halving a number from 2 on and by doubling a number
  below 1.
\<close>

function expo_up :: "real \<Rightarrow> int" where
  "expo_up x = (if 2 \<le> x then expo_up (x / 2) + 1 else 0)"
  by pat_completeness auto
termination
proof (relation "measure (\<lambda>x. nat \<lceil>x\<rceil>)")
  show "wf (measure (\<lambda>x::real. nat \<lceil>x\<rceil>))" by simp
next
  fix x :: real
  assume "2 \<le> x"
  then have "\<lceil>x / 2\<rceil> < \<lceil>x\<rceil>" by linarith
  moreover have "0 < \<lceil>x\<rceil>" using \<open>2 \<le> x\<close> by linarith
  ultimately show "(x / 2, x) \<in> measure (\<lambda>x. nat \<lceil>x\<rceil>)" by simp
qed

function expo_down :: "real \<Rightarrow> int" where
  "expo_down x = (if 0 < x \<and> x < 1 then expo_down (2 * x) - 1 else 0)"
  by pat_completeness auto
termination
proof (relation "measure (\<lambda>x. nat \<lceil>1 / x\<rceil>)")
  show "wf (measure (\<lambda>x::real. nat \<lceil>1 / x\<rceil>))" by simp
next
  fix x :: real
  assume a: "0 < x \<and> x < 1"
  define y where "y = 1 / x"
  have y: "1 < y" using a by (simp add: y_def)
  have eq: "1 / (2 * x) = y / 2" by (simp add: y_def)
  have lt: "\<lceil>y / 2\<rceil> < \<lceil>y\<rceil>"
  proof (cases "y \<le> 2")
    case True
    then have "\<lceil>y / 2\<rceil> \<le> 1" by (simp add: ceiling_le_iff)
    moreover have "1 < \<lceil>y\<rceil>" using y by (simp add: less_ceiling_iff)
    ultimately show ?thesis by linarith
  next
    case False
    then have "y / 2 \<le> y - 1" by simp
    then have "\<lceil>y / 2\<rceil> \<le> \<lceil>y - 1\<rceil>" by (rule ceiling_mono)
    then show ?thesis by simp
  qed
  have "0 < \<lceil>y\<rceil>" using y by linarith
  with lt have "nat \<lceil>y / 2\<rceil> < nat \<lceil>y\<rceil>" by linarith
  then have "nat \<lceil>1 / (2 * x)\<rceil> < nat \<lceil>1 / x\<rceil>" by (simp only: eq y_def)
  then show "(2 * x, x) \<in> measure (\<lambda>x. nat \<lceil>1 / x\<rceil>)"
    by (simp only: in_measure)
qed

declare expo_up.simps [simp del] expo_down.simps [simp del]

definition expo :: "real \<Rightarrow> int" where
  "expo x = (if 1 \<le> x then expo_up x else expo_down x)"

text \<open>The nearest integer, a tie going to the even one.\<close>

definition rne :: "real \<Rightarrow> int" where
  "rne m =
     (let f = \<lfloor>m\<rfloor>; d = m - of_int f
      in if d < 1 / 2 then f else if 1 / 2 < d then f + 1 else if even f then f else f + 1)"

text \<open>
  The exponent of the spacing of the doubles around \<open>x\<close>: 52 below the exponent of
  \<open>x\<close>, and not below that of the subnormal numbers.
\<close>

definition ulp_exp :: "real \<Rightarrow> int" where
  "ulp_exp x = max (expo \<bar>x\<bar>) (- 1022) - 52"

text \<open>
  \<open>fl x\<close> is \<open>x\<close> rounded to 53 significant bits, to the nearest and a tie to the even
  significand: the double that an arithmetic operation of exact result \<open>x\<close> returns,
  as long as it does not overflow.
\<close>

definition fl :: "real \<Rightarrow> real" where
  "fl x =
     (if x = 0 then 0
      else let u = 2 powi ulp_exp x in u * of_int (rne (x / u)))"

text \<open>
  The same with the overflow: a rounded magnitude of \<open>2\<^sup>1\<^sup>0\<^sup>2\<^sup>4\<close> or more, that is of
  binary exponent 1024 or more, is infinite.
\<close>

definition dbl :: "real \<Rightarrow> jsnum" where
  "dbl x =
     (let r = fl x
      in if 1024 \<le> expo \<bar>r\<bar> then (if 0 < r then PosInf else NegInf) else Fin r)"

text \<open>
  The arithmetic of doubles: the exact result rounded where both operands are finite,
  and the rules of the special values otherwise.
\<close>

fun dbl_add :: "jsnum \<Rightarrow> jsnum \<Rightarrow> jsnum" where
  "dbl_add (Fin a) (Fin b) = dbl (a + b)"
| "dbl_add x y = js_plus x y"

definition dbl_sub :: "jsnum \<Rightarrow> jsnum \<Rightarrow> jsnum" where
  "dbl_sub x y = dbl_add x (js_negate y)"

text \<open>The sign of a number that is not NaN, for the products and quotients of infinities.\<close>

fun js_sign :: "jsnum \<Rightarrow> int" where
  "js_sign (Fin a) = (if 0 < a then 1 else if a < 0 then - 1 else 0)"
| "js_sign PosInf = 1"
| "js_sign NegInf = - 1"
| "js_sign NaN = 0"

definition signed_infinity :: "int \<Rightarrow> jsnum" where
  "signed_infinity s = (if s = 0 then NaN else if 0 < s then PosInf else NegInf)"

fun dbl_mul :: "jsnum \<Rightarrow> jsnum \<Rightarrow> jsnum" where
  "dbl_mul (Fin a) (Fin b) = dbl (a * b)"
| "dbl_mul NaN y = NaN"
| "dbl_mul x NaN = NaN"
| "dbl_mul x y = signed_infinity (js_sign x * js_sign y)"

fun dbl_div :: "jsnum \<Rightarrow> jsnum \<Rightarrow> jsnum" where
  "dbl_div (Fin a) (Fin b) = (if b \<noteq> 0 then dbl (a / b) else js_divide a b)"
| "dbl_div NaN y = NaN"
| "dbl_div x NaN = NaN"
| "dbl_div (Fin a) y = Fin 0"
| "dbl_div x (Fin b) = signed_infinity (js_sign x * (if b < 0 then - 1 else 1))"
| "dbl_div x y = NaN"

fun dbl_sqrt :: "jsnum \<Rightarrow> jsnum" where
  "dbl_sqrt (Fin a) = (if a < 0 then NaN else Fin (fl (sqrt a)))"
| "dbl_sqrt PosInf = PosInf"
| "dbl_sqrt x = NaN"

text \<open>\<^verbatim>\<open>x > y\<close> on doubles.\<close>

fun dbl_greater :: "jsnum \<Rightarrow> jsnum \<Rightarrow> bool" where
  "dbl_greater (Fin a) (Fin b) = (a > b)"
| "dbl_greater NaN y = False"
| "dbl_greater x NaN = False"
| "dbl_greater x PosInf = False"
| "dbl_greater NegInf y = False"
| "dbl_greater x y = True"

subsection \<open>Anomaly detector\<close>

text \<open>
  \<^verbatim>\<open>detectAnomaly\<close> in double arithmetic. The two \<^verbatim>\<open>reduce\<close> calls are left folds from
  \<open>0\<close>; \<^verbatim>\<open>Math.pow(x, 2)\<close> is taken to be the rounded square and \<^verbatim>\<open>Math.sqrt\<close> the
  rounded square root. The divisor \<^verbatim>\<open>amounts.length\<close> is not zero where it is used, by
  the early return.
\<close>

definition detectAnomaly :: "real \<Rightarrow> string \<Rightarrow> expense list \<Rightarrow> bool" where
  "detectAnomaly amt cat historicalExpenses =
     (let categoryExpenses = filter (\<lambda>e. expense.category e = cat) historicalExpenses
      in if length categoryExpenses = 0 then False
         else
           (let amounts = map amount categoryExpenses;
                avg = dbl_div (foldl (\<lambda>sum val. dbl_add sum (Fin val)) (Fin 0) amounts)
                        (Fin (real (length amounts)));
                variance =
                  dbl_div
                    (foldl (\<lambda>sum val.
                              dbl_add sum
                                (dbl_mul (dbl_sub (Fin val) avg) (dbl_sub (Fin val) avg)))
                       (Fin 0) amounts)
                    (Fin (real (length amounts)));
                stdDev = dbl_sqrt variance
            in dbl_greater (Fin amt) (dbl_add avg (dbl_mul (Fin 2) stdDev))))"

text \<open>
  The parts of that computation, as functions of the list of amounts: the mean, the
  population variance and standard deviation (divisor \<open>n\<close>, not \<open>n - 1\<close>) and the
  threshold, each as the double arithmetic gives it.
\<close>

definition dbl_mean :: "real list \<Rightarrow> jsnum" where
  "dbl_mean xs =
     dbl_div (foldl (\<lambda>sum val. dbl_add sum (Fin val)) (Fin 0) xs) (Fin (real (length xs)))"

definition dbl_variance :: "real list \<Rightarrow> jsnum" where
  "dbl_variance xs =
     dbl_div
       (foldl (\<lambda>sum val.
                 dbl_add sum
                   (dbl_mul (dbl_sub (Fin val) (dbl_mean xs)) (dbl_sub (Fin val) (dbl_mean xs))))
          (Fin 0) xs)
       (Fin (real (length xs)))"

definition anomalyThreshold :: "real list \<Rightarrow> jsnum" where
  "anomalyThreshold xs =
     dbl_add (dbl_mean xs) (dbl_mul (Fin 2) (dbl_sqrt (dbl_variance xs)))"

text \<open>
  The statistics the specification names, in exact arithmetic: the mean and the
  population standard deviation.
\<close>

definition mean :: "real list \<Rightarrow> real" where
  "mean xs = sum_list xs / real (length xs)"

definition population_stddev :: "real list \<Rightarrow> real" where
  "population_stddev xs = sqrt ((\<Sum>x\<leftarrow>xs. (x - mean xs)\<^sup>2) / real (length xs))"

text \<open>An expense of a category with an amount, for the scenarios below.\<close>

definition mk_expense :: "string \<Rightarrow> real \<Rightarrow> expense" where
  "mk_expense cat a =
     \<lparr> title = [], description = [], amount = a, expense.category = cat,
       expense_date = \<lparr> getFullYear = 2024, getMonth = 0, getTime = 0 \<rparr>,
       status = approved, is_anomaly = False \<rparr>"

subsection \<open>Health scorer\<close>

datatype grade = GradeA | GradeB | GradeC | GradeD | GradeF

record financialInsight =
  overall_score :: real
  expense_health :: real
  payroll_health :: real
  budget_adherence :: real
  grade :: grade
  insights :: "string list"

text \<open>
  \<^verbatim>\<open>Number(x.toFixed(1))\<close>: the multiple of one tenth nearest to \<open>x\<close>, the larger one
  of two equally near; \<^verbatim>\<open>toFixed\<close> formats the absolute value and restores the sign.
  The value is the decimal that \<^verbatim>\<open>toFixed\<close> prints, which \<^verbatim>\<open>Number\<close> reads back as the
  double nearest to it.
\<close>

definition toFixed1 :: "real \<Rightarrow> real" where
  "toFixed1 x =
     (if x < 0 then - (of_int \<lfloor>- x * 10 + 1 / 2\<rfloor> / 10) else of_int \<lfloor>x * 10 + 1 / 2\<rfloor> / 10)"

text \<open>
  The local constants of \<^verbatim>\<open>calculateHealthScore\<close>, one definition each, every
  operation rounded. The counts and the constants are doubles as they are.
\<close>

definition anomalyRate :: "expense list \<Rightarrow> real" where
  "anomalyRate expenses =
     fl (real (length (filter (\<lambda>e. is_anomaly e) expenses)) / real (max (length expenses) 1))"

definition pendingRate :: "expense list \<Rightarrow> real" where
  "pendingRate expenses =
     fl (real (length (filter (\<lambda>e. status e = pending) expenses))
          / real (max (length expenses) 1))"

definition expenseScore :: "expense list \<Rightarrow> real" where
  "expenseScore expenses =
     max 0 (fl (fl (40 - fl (anomalyRate expenses * 15)) - fl (pendingRate expenses * 10)))"

definition payrollScore :: "real \<Rightarrow> real" where
  "payrollScore pendingPayroll = max 0 (fl (30 - fl (pendingPayroll * 5)))"

text \<open>The expenses dated in the month and year of the clock reading \<open>now\<close>.\<close>

definition monthlyExpenses :: "jsdate \<Rightarrow> expense list \<Rightarrow> expense list" where
  "monthlyExpenses now expenses =
     (let currentMonth = getMonth now + 1;
          currentYear = getFullYear now
      in filter (\<lambda>e. getMonth (expense_date e) + 1 = currentMonth
                     \<and> getFullYear (expense_date e) = currentYear) expenses)"

text \<open>
  The body of \<^verbatim>\<open>budgets.forEach\<close> on the running \<^verbatim>\<open>budgetScore\<close>. It reads the budget's
  category and monthly limit, and no other field.
\<close>

definition budgetStep :: "expense list \<Rightarrow> real \<Rightarrow> budget \<Rightarrow> real" where
  "budgetStep monthly budgetScore b =
     (let categoryExpenses = filter (\<lambda>e. expense.category e = budget.category b) monthly;
          total = foldl (\<lambda>sum e. fl (sum + amount e)) 0 categoryExpenses
      in if total > monthly_limit b then fl (budgetScore - 10) else budgetScore)"

definition budgetScore :: "jsdate \<Rightarrow> expense list \<Rightarrow> budget list \<Rightarrow> real" where
  "budgetScore now expenses budgets =
     max 0 (foldl (budgetStep (monthlyExpenses now expenses)) 30 budgets)"

text \<open>The score on the scale of 0 to 10, before it is rounded to one decimal.\<close>

definition scoreOutOf10 :: "jsdate \<Rightarrow> expense list \<Rightarrow> budget list \<Rightarrow> real \<Rightarrow> real" where
  "scoreOutOf10 now expenses budgets pendingPayroll =
     (let total = fl (fl (expenseScore expenses + payrollScore pendingPayroll)
                        + budgetScore now expenses budgets)
      in fl (total / 10))"

definition calculateHealthScore ::
    "jsdate \<Rightarrow> expense list \<Rightarrow> budget list \<Rightarrow> real \<Rightarrow> financialInsight" where
  "calculateHealthScore now expenses budgets pendingPayroll =
     (let scoreOutOf10 = scoreOutOf10 now expenses budgets pendingPayroll;
          grade = (if scoreOutOf10 \<ge> 9 then GradeA
                   else if scoreOutOf10 \<ge> 7 then GradeB
                   else if scoreOutOf10 \<ge> 5 then GradeC
                   else if scoreOutOf10 \<ge> 3 then GradeD else GradeF);
          insights =
            (if anomalyRate expenses > fl 0.1
               then [''High number of unusual expenses detected''] else [])
            @ (if pendingRate expenses > fl 0.2
                 then [''Many expenses pending approval''] else [])
            @ (if budgetScore now expenses budgets < 20
                 then [''Multiple budget categories exceeded''] else [])
            @ (if scoreOutOf10 \<ge> 7 then [''Overall financial health is good''] else [])
      in \<lparr> overall_score = toFixed1 scoreOutOf10,
           expense_health = toFixed1 (fl (expenseScore expenses / 4)),
           payroll_health = toFixed1 (fl (payrollScore pendingPayroll / 3)),
           budget_adherence = toFixed1 (fl (budgetScore now expenses budgets / 3)),
           grade = grade,
           insights = insights \<rparr>)"

text \<open>
  The month's spend in a category: the amounts added from left to right, as the code
  adds them.
\<close>

definition monthSpend :: "jsdate \<Rightarrow> expense list \<Rightarrow> string \<Rightarrow> real" where
  "monthSpend now expenses cat =
     foldl (\<lambda>sum e. fl (sum + amount e)) 0
       (filter (\<lambda>e. expense.category e = cat) (monthlyExpenses now expenses))"

text \<open>Scenario data: a clock reading in January 2024, the month of \<open>mk_expense\<close>.\<close>

definition january2024 :: jsdate where
  "january2024 = \<lparr> getFullYear = 2024, getMonth = 0, getTime = 0 \<rparr>"

text \<open>Eleven expenses: ten flagged as anomalies, two of them pending, and one plain.\<close>

definition eleven_expenses :: "expense list" where
  "eleven_expenses =
     replicate 8 ((mk_expense ''travel'' 10) \<lparr> is_anomaly := True \<rparr>)
     @ replicate 2 ((mk_expense ''travel'' 10) \<lparr> is_anomaly := True, status := pending \<rparr>)
     @ [mk_expense ''travel'' 10]"

text \<open>
  Thirteen expenses: eight travel expenses flagged as anomalies, one pending rent
  expense of 100 and four plain travel expenses; and three rent budgets of limit 50,
  which the month's rent of 100 exceeds.
\<close>

definition thirteen_expenses :: "expense list" where
  "thirteen_expenses =
     replicate 8 ((mk_expense ''travel'' 10) \<lparr> is_anomaly := True \<rparr>)
     @ [(mk_expense ''rent'' 100) \<lparr> status := pending \<rparr>]
     @ replicate 4 (mk_expense ''travel'' 10)"

definition three_rent_budgets :: "budget list" where
  "three_rent_budgets =
     replicate 3 \<lparr> budget.category = ''rent'', monthly_limit = 50, budget.is_active = True \<rparr>"

definition inactive_rent_budget :: budget where
  "inactive_rent_budget =
     \<lparr> budget.category = ''rent'', monthly_limit = 50, budget.is_active = False \<rparr>"

subsection \<open>Cash-flow forecaster\<close>

record cashFlowPrediction =
  month :: string
  predicted_expenses :: jsnum
  confidence_interval :: "jsnum \<times> jsnum"
  budget :: real
  likely_overrun :: bool

text \<open>
  \<^verbatim>\<open>monthlyTotals\<close> is an object keyed by the text \<^verbatim>\<open>YYYY-MM\<close>; the model keys it by the
  pair of year and month (1 to 12). Such keys are enumerated in insertion order, so the
  object is an association list that keeps the position of a key on update.
\<close>

fun addToMonth :: "int \<times> nat \<Rightarrow> real \<Rightarrow> ((int \<times> nat) \<times> real) list \<Rightarrow> ((int \<times> nat) \<times> real) list"
  where
  "addToMonth k a [] = [(k, 0 + a)]"
| "addToMonth k a ((k', v) # kvs) =
     (if k' = k then (k', js_or v 0 + a) # kvs else (k', v) # addToMonth k a kvs)"

definition monthlyTotals :: "expense list \<Rightarrow> ((int \<times> nat) \<times> real) list" where
  "monthlyTotals historicalExpenses =
     foldl (\<lambda>totals e.
              addToMonth (getFullYear (expense_date e), getMonth (expense_date e) + 1)
                (amount e) totals)
       [] historicalExpenses"

text \<open>
  \<^verbatim>\<open>predictCashFlow\<close>. The first parameter stands for the clock and the locale:
  \<open>monthLabel i\<close> is the label of the month \<open>i\<close> months after now. The trend is computed
  only with more than one bucket, where its divisor is not zero.
\<close>

definition predictCashFlow ::
    "(nat \<Rightarrow> string) \<Rightarrow> expense list \<Rightarrow> real \<Rightarrow> nat \<Rightarrow> cashFlowPrediction list" where
  "predictCashFlow monthLabel historicalExpenses monthlyBudget monthsAhead =
     (let totals = map snd (monthlyTotals historicalExpenses);
          avg = js_divide (foldl (\<lambda>sum val. sum + val) 0 totals) (real (length totals));
          trend = (if length totals > 1
                   then (hd totals - last totals) / real (length totals) else 0)
      in map (\<lambda>i.
                let predicted = js_plus avg (Fin (trend * real i));
                    margin = js_times predicted 0.15
                in \<lparr> month = monthLabel i,
                     predicted_expenses = js_round predicted,
                     confidence_interval =
                       (js_round (js_minus predicted margin), js_round (js_plus predicted margin)),
                     budget = monthlyBudget,
                     likely_overrun = js_greater predicted monthlyBudget \<rparr>)
           [1 ..< Suc monthsAhead])"

subsection \<open>Pattern analyzer\<close>

datatype pattern_type = increase | decrease | stable | anomaly

datatype priority = high | medium | low

record spendingPattern =
  type :: pattern_type
  category :: string
  change :: string
  recommendation :: string
  priority :: priority

text \<open>
  \<^verbatim>\<open>categoryTotals\<close> is an object keyed by category, each value the list of the
  category's amounts in the order of the expenses; its keys are enumerated in insertion
  order (category names are not array indices).
\<close>

fun pushAmount :: "string \<Rightarrow> real \<Rightarrow> (string \<times> real list) list \<Rightarrow> (string \<times> real list) list"
  where
  "pushAmount c a [] = [(c, [a])]"
| "pushAmount c a ((c', v) # kvs) =
     (if c' = c then (c', v @ [a]) # kvs else (c', v) # pushAmount c a kvs)"

definition categoryTotals :: "expense list \<Rightarrow> (string \<times> real list) list" where
  "categoryTotals recentExpenses =
     foldl (\<lambda>totals e. pushAmount (expense.category e) (amount e) totals) [] recentExpenses"

text \<open>
  The body of the loop over the categories: the patterns it pushes (none or one). With
  at least three amounts both halves are non-empty, so the two averages are finite; the
  divisor \<^verbatim>\<open>olderAvg\<close> is not guarded.
\<close>

definition analyzeCategory :: "string \<times> real list \<Rightarrow> spendingPattern list" where
  "analyzeCategory entry =
     (let cat = fst entry; amounts = snd entry
      in if length amounts < 3 then []
         else
           (let recent = take (length amounts div 2) amounts;
                older = drop (length amounts div 2) amounts;
                recentAvg = foldl (\<lambda>sum val. sum + val) 0 recent / real (length recent);
                olderAvg = foldl (\<lambda>sum val. sum + val) 0 older / real (length older);
                changePercent = js_times (js_divide (recentAvg - olderAvg) olderAvg) 100
            in if js_greater (js_abs changePercent) 20
               then
                 (let ty = (if js_greater changePercent 0 then increase else decrease)
                  in [\<lparr> type = ty,
                         spendingPattern.category = cat,
                         change = (if js_greater changePercent 0 then ''+'' else [])
                                  @ js_roundedToString (js_round changePercent) @ ''%'',
                         recommendation =
                           (if ty = increase then ''Review recent purchases and ROI''
                            else ''Spending is decreasing, monitor for impact''),
                         priority = (if js_greater (js_abs changePercent) 40
                                     then high else medium) \<rparr>])
               else []))"

text \<open>
  \<^verbatim>\<open>analyzeSpendingPatterns\<close>. The first parameter stands for the clock:
  \<open>monthsAgo k\<close> is the date \<open>k\<close> months before now. The change text of the stable
  pattern is the plus-minus sign (code unit B1), 5 and the percent sign.
\<close>

definition analyzeSpendingPatterns ::
    "(nat \<Rightarrow> jsdate) \<Rightarrow> expense list \<Rightarrow> nat \<Rightarrow> spendingPattern list" where
  "analyzeSpendingPatterns monthsAgo expenses monthsToAnalyze =
     (let cutoffDate = monthsAgo monthsToAnalyze;
          recentExpenses =
            filter (\<lambda>e. getTime (expense_date e) \<ge> getTime cutoffDate) expenses;
          totals = categoryTotals recentExpenses;
          patterns = concat (map analyzeCategory totals);
          stableCategories =
            filter (\<lambda>cat. find (\<lambda>p. spendingPattern.category p = cat) patterns = None)
              (map fst totals)
      in patterns
         @ (if length stableCategories > 0
            then [\<lparr> type = stable,
                    spendingPattern.category = hd stableCategories,
                    change = [CHR 0xB1, CHR ''5'', CHR ''%''],
                    recommendation = ''Spending is stable and predictable'',
                    priority = low \<rparr>]
            else []))"

text \<open>Scenario data: an expense of February 2024, and a clock for the analyzer.\<close>

definition mk_expense_feb :: "string \<Rightarrow> real \<Rightarrow> expense" where
  "mk_expense_feb cat a =
     (mk_expense cat a) \<lparr> expense_date := \<lparr> getFullYear = 2024, getMonth = 1, getTime = 31 \<rparr> \<rparr>"

definition monthsBeforeNow :: "nat \<Rightarrow> jsdate" where
  "monthsBeforeNow k = \<lparr> getFullYear = 2023, getMonth = 0, getTime = - 365 \<rparr>"

definition labelOfMonth :: "nat \<Rightarrow> string" where
  "labelOfMonth i = ''month + '' @ digitsOf i"

section \<open>Properties\<close>

subsection \<open>Payroll\<close>

text \<open>
  C1. Every payroll computation that \<^verbatim>\<open>calculatePayroll\<close> produces comes from a selected
  employee and satisfies the payroll identities: gross salary is base salary plus
  overtime pay plus bonus plus allowances; total deductions are tax plus insurance plus
  provident fund plus loan repayment plus other deductions; net salary is gross salary
  minus total deductions minus leave deduction; overtime pay is overtime hours times
  (base salary / 176) times 1.5; leave deduction is (base salary / 22) times unpaid leaves.
\<close>

theorem calculatePayroll_identities:
  assumes "calculatePayroll selectedEmployee fd = Some p"
  shows "\<exists>emp. selectedEmployee = Some emp
           \<and> calculated.base_salary p = employee.base_salary emp
           \<and> gross_salary p
               = calculated.base_salary p + overtime_pay p + bonus fd + allowances fd
           \<and> total_deductions p
               = calculated.tax p + calculated.insurance p + calculated.provident_fund p
                 + loan_repayment fd + other_deductions fd
           \<and> net_salary p = gross_salary p - total_deductions p - leave_deduction p
           \<and> overtime_pay p = overtime_hours fd * (calculated.base_salary p / 176) * 1.5
           \<and> leave_deduction p = (calculated.base_salary p / 22) * unpaid_leaves fd"
proof (cases selectedEmployee)
  case None
  with assms show ?thesis by (simp add: calculatePayroll_def)
next
  case (Some emp)
  with assms have "p = the (calculatePayroll (Some emp) fd)" by simp
  then show ?thesis using Some
    by (simp add: calculatePayroll_def Let_def)
qed

theorem calculatePayroll_identities_witness:
  "\<exists>p. calculatePayroll
          (Some \<lparr> employee_id = ''E1'', employee.base_salary = 6000, is_active = True \<rparr>)
          \<lparr> overtime_hours = 10, bonus = 500, allowances = 200, formData.tax = 0,
            formData.insurance = 0, formData.provident_fund = 0, loan_repayment = 0,
            other_deductions = 0, paid_leaves = 0, unpaid_leaves = 2 \<rparr> = Some p
       \<and> overtime_pay p = 5625 / 11
       \<and> gross_salary p = 6000 + overtime_pay p + 500 + 200
       \<and> calculated.insurance p = 150
       \<and> leave_deduction p = 6000 / 11
       \<and> net_salary p = gross_salary p - total_deductions p - leave_deduction p"
proof -
  let ?emp = "\<lparr> employee_id = ''E1'', employee.base_salary = 6000, is_active = True \<rparr>"
  let ?fd = "\<lparr> overtime_hours = 10, bonus = 500, allowances = 200, formData.tax = 0,
            formData.insurance = 0, formData.provident_fund = 0, loan_repayment = 0,
            other_deductions = 0, paid_leaves = 0, unpaid_leaves = 2 \<rparr>"
  obtain p where p: "calculatePayroll (Some ?emp) ?fd = Some p"
    by (simp add: calculatePayroll_def Let_def)
  from calculatePayroll_identities [OF p]
  have "calculated.base_salary p = 6000
      \<and> gross_salary p = calculated.base_salary p + overtime_pay p + 500 + 200
      \<and> net_salary p = gross_salary p - total_deductions p - leave_deduction p
      \<and> overtime_pay p = 10 * (calculated.base_salary p / 176) * 1.5
      \<and> leave_deduction p = (calculated.base_salary p / 22) * 2"
    by simp
  moreover have "calculated.insurance p = 150"
    using p by (auto simp add: calculatePayroll_def Let_def js_or_def)
  ultimately show ?thesis using p by simp
qed

subsection \<open>Double-precision rounding\<close>

text \<open>
  The exponent function meets its specification, \<open>2\<^sup>e \<le> x < 2\<^sup>e\<^sup>+\<^sup>1\<close>, which determines
  it.
\<close>

lemma expo_up_spec: "1 \<le> x \<Longrightarrow> 2 powi (expo_up x) \<le> x \<and> x < 2 powi (expo_up x + 1)"
proof (induction x rule: expo_up.induct)
  case (1 x)
  show ?case
  proof (cases "2 \<le> x")
    case True
    then have "2 powi (expo_up (x / 2)) \<le> x / 2 \<and> x / 2 < 2 powi (expo_up (x / 2) + 1)"
      using 1 by simp
    moreover have "expo_up x = expo_up (x / 2) + 1" using True by (simp add: expo_up.simps)
    ultimately show ?thesis by (simp add: power_int_add)
  next
    case False
    then have "expo_up x = 0" by (simp add: expo_up.simps)
    with False 1 show ?thesis by simp
  qed
qed

lemma expo_down_spec:
  "0 < x \<Longrightarrow> x < 1 \<Longrightarrow> 2 powi (expo_down x) \<le> x \<and> x < 2 powi (expo_down x + 1)"
proof (induction x rule: expo_down.induct)
  case (1 x)
  have e: "expo_down x = expo_down (2 * x) - 1" using 1 by (simp add: expo_down.simps)
  show ?case
  proof (cases "2 * x < 1")
    case True
    then have "2 powi (expo_down (2 * x)) \<le> 2 * x \<and> 2 * x < 2 powi (expo_down (2 * x) + 1)"
      using 1 by simp
    then show ?thesis unfolding e by (simp add: power_int_add power_int_diff)
  next
    case False
    then have "expo_down (2 * x) = 0" by (simp add: expo_down.simps)
    with False 1 show ?thesis unfolding e by simp
  qed
qed

lemma expo_spec: "0 < x \<Longrightarrow> 2 powi (expo x) \<le> x \<and> x < 2 powi (expo x + 1)"
  using expo_up_spec [of x] expo_down_spec [of x] by (simp add: expo_def)

lemma expo_unique:
  assumes "2 powi e \<le> x" "x < 2 powi (e + 1)"
  shows "expo x = e"
proof -
  have x: "0 < x" using assms(1) by (rule less_le_trans [rotated]) simp
  note s = expo_spec [OF x]
  have "\<not> expo x < e"
  proof
    assume "expo x < e"
    then have "2 powi (expo x + 1) \<le> (2::real) powi e"
      by (intro power_int_increasing) simp_all
    with s assms show False by linarith
  qed
  moreover have "\<not> e < expo x"
  proof
    assume "e < expo x"
    then have "2 powi (e + 1) \<le> (2::real) powi (expo x)"
      by (intro power_int_increasing) simp_all
    with s assms show False by linarith
  qed
  ultimately show ?thesis by linarith
qed

lemma expo_mono: "0 < x \<Longrightarrow> x \<le> y \<Longrightarrow> expo x \<le> expo y"
proof (rule ccontr)
  assume x: "0 < x" and xy: "x \<le> y" and "\<not> expo x \<le> expo y"
  then have "2 powi (expo y + 1) \<le> (2::real) powi (expo x)"
    by (intro power_int_increasing) simp_all
  with expo_spec [OF x] expo_spec [of y] x xy show False by linarith
qed

text \<open>
  Rounding to the nearest integer keeps the integers, is monotone and odd, and is
  determined by the distance to the integer.
\<close>

lemma rne_of_int [simp]: "rne (of_int k) = k"
  by (simp add: rne_def)

lemma rne_bounds: "\<lfloor>m\<rfloor> \<le> rne m" "rne m \<le> \<lfloor>m\<rfloor> + 1"
  by (simp_all add: rne_def Let_def)

lemma rne_mono: "a \<le> b \<Longrightarrow> rne a \<le> rne b"
proof -
  assume ab: "a \<le> b"
  then have f: "\<lfloor>a\<rfloor> \<le> \<lfloor>b\<rfloor>" by (rule floor_mono)
  show ?thesis
  proof (cases "\<lfloor>a\<rfloor> = \<lfloor>b\<rfloor>")
    case True
    then show ?thesis using ab by (auto simp: rne_def Let_def)
  next
    case False
    with f have "\<lfloor>a\<rfloor> + 1 \<le> \<lfloor>b\<rfloor>" by simp
    with rne_bounds(2) [of a] rne_bounds(1) [of b] show ?thesis by linarith
  qed
qed

lemma rne_near: "\<bar>m - of_int k\<bar> < 1 / 2 \<Longrightarrow> rne m = k"
proof -
  assume a: "\<bar>m - of_int k\<bar> < 1 / 2"
  show ?thesis
  proof (cases "of_int k \<le> m")
    case True
    with a have "\<lfloor>m\<rfloor> = k" by (simp add: floor_eq_iff abs_less_iff)
    with a True show ?thesis by (simp add: rne_def Let_def abs_less_iff)
  next
    case False
    with a have f: "\<lfloor>m\<rfloor> = k - 1" by (simp add: floor_eq_iff abs_less_iff)
    have "of_int (k - 1) = of_int k - (1::real)" by simp
    then have "1 / 2 < m - of_int (k - 1)" using a by linarith
    then show ?thesis unfolding rne_def Let_def f by simp
  qed
qed


lemma rne_minus: "rne (- m) = - rne m"
proof (cases "m = of_int \<lfloor>m\<rfloor>")
  case True
  then obtain k where "m = of_int k" by blast
  then have "rne (- m) = rne (of_int (- k))" by simp
  also have "\<dots> = - k" by (rule rne_of_int)
  finally show ?thesis using \<open>m = of_int k\<close> by simp
next
  case False
  have "of_int \<lfloor>m\<rfloor> \<le> m" by (rule of_int_floor_le)
  with False have "of_int \<lfloor>m\<rfloor> < m" by (metis less_le)
  moreover have "m < of_int \<lfloor>m\<rfloor> + 1" by linarith
  moreover have "of_int (- \<lfloor>m\<rfloor> - 1) = - of_int \<lfloor>m\<rfloor> - (1::real)" by simp
  ultimately have "of_int (- \<lfloor>m\<rfloor> - 1) \<le> - m" "- m < of_int (- \<lfloor>m\<rfloor> - 1) + 1"
    by linarith+
  then have f: "\<lfloor>- m\<rfloor> = - \<lfloor>m\<rfloor> - 1" by (rule floor_unique)
  show ?thesis unfolding rne_def Let_def f
    by (auto simp: field_simps)
qed

text \<open>
  Rounding to a double is odd and monotone. A positive normal number is rounded within
  the closed interval of its exponent.
\<close>

lemma fl_minus: "fl (- x) = - fl x"
  by (simp add: fl_def ulp_exp_def Let_def rne_minus)

lemma fl_nonneg: "0 \<le> x \<Longrightarrow> 0 \<le> fl x"
proof -
  assume x: "0 \<le> x"
  have "rne 0 = 0" using rne_of_int [of 0] by simp
  then have "0 \<le> rne (x / u)" if "0 < u" for u :: real
    using rne_mono [of 0 "x / u"] that x by simp
  then show ?thesis by (simp add: fl_def Let_def)
qed

lemma fl_ulp: "fl x = (if x = 0 then 0 else 2 powi ulp_exp x * of_int (rne (x / 2 powi ulp_exp x)))"
  by (simp add: fl_def Let_def)

lemma fl_upper:
  assumes "0 < x"
  shows "fl x \<le> 2 powi (ulp_exp x + 53)"
proof -
  let ?u = "(2::real) powi ulp_exp x"
  have u: "0 < ?u" by simp
  have "x < 2 powi (expo x + 1)" using expo_spec [OF assms] by simp
  also have "\<dots> \<le> 2 powi (ulp_exp x + 53)"
    using assms by (intro power_int_increasing) (simp_all add: ulp_exp_def)
  finally have "x / ?u \<le> 2 powi (ulp_exp x + 53) / ?u"
    using u by (simp add: divide_right_mono)
  also have "\<dots> = of_int (2 ^ 53)" by (simp add: power_int_add)
  finally have "rne (x / ?u) \<le> rne (of_int (2 ^ 53))" by (rule rne_mono)
  then have "rne (x / ?u) \<le> 2 ^ 53" by (simp only: rne_of_int)
  then have "(of_int (rne (x / ?u)) :: real) \<le> of_int (2 ^ 53)" by (simp only: of_int_le_iff)
  then have "?u * of_int (rne (x / ?u)) \<le> ?u * of_int (2 ^ 53)"
    using u by (intro mult_left_mono) simp_all
  also have "\<dots> = 2 powi (ulp_exp x + 53)" by (simp add: power_int_add)
  finally show ?thesis using assms by (simp add: fl_ulp)
qed

lemma fl_lower:
  assumes "0 < x" "- 1022 \<le> expo x"
  shows "2 powi (expo x) \<le> fl x"
proof -
  let ?u = "(2::real) powi ulp_exp x"
  have e: "ulp_exp x = expo x - 52" using assms by (simp add: ulp_exp_def)
  have u: "0 < ?u" by simp
  have "2 powi (expo x) \<le> x" using expo_spec [OF assms(1)] by simp
  then have "2 powi (expo x) / ?u \<le> x / ?u" using u by (simp add: divide_right_mono)
  moreover have p: "2 powi (expo x) / ?u = of_int (2 ^ 52)"
    unfolding e by (simp add: power_int_diff)
  ultimately have "rne (of_int (2 ^ 52)) \<le> rne (x / ?u)" by (simp only: rne_mono)
  then have "2 ^ 52 \<le> rne (x / ?u)" by (simp only: rne_of_int)
  then have r: "(of_int (2 ^ 52) :: real) \<le> of_int (rne (x / ?u))" by (simp only: of_int_le_iff)
  have "2 powi (expo x) = ?u * of_int (2 ^ 52)"
    using p u by (simp add: field_simps)
  also have "\<dots> \<le> ?u * of_int (rne (x / ?u))"
    using u r by (intro mult_left_mono) simp_all
  also have "\<dots> = fl x" using assms by (simp add: fl_ulp)
  finally show ?thesis .
qed

lemma fl_mono_pos:
  assumes "0 < x" "x \<le> y"
  shows "fl x \<le> fl y"
proof -
  have y: "0 < y" using assms by simp
  have le: "ulp_exp x \<le> ulp_exp y"
    using expo_mono [OF assms] assms y by (simp add: ulp_exp_def)
  show ?thesis
  proof (cases "ulp_exp x = ulp_exp y")
    case True
    let ?u = "(2::real) powi ulp_exp y"
    have "x / ?u \<le> y / ?u" using assms by (simp add: divide_right_mono)
    then have "rne (x / ?u) \<le> rne (y / ?u)" by (rule rne_mono)
    then have "?u * of_int (rne (x / ?u)) \<le> ?u * of_int (rne (y / ?u))"
      by (intro mult_left_mono) simp_all
    then show ?thesis using assms y True by (simp add: fl_ulp)
  next
    case False
    with le have lt: "ulp_exp x < ulp_exp y" by simp
    then have ey: "ulp_exp y = expo y - 52" "- 1022 \<le> expo y"
      using y by (auto simp: ulp_exp_def max_def split: if_splits)
    have "fl x \<le> 2 powi (ulp_exp x + 53)" by (rule fl_upper [OF assms(1)])
    also have "\<dots> \<le> 2 powi (expo y)"
      using lt ey by (intro power_int_increasing) simp_all
    also have "\<dots> \<le> fl y" by (rule fl_lower [OF y ey(2)])
    finally show ?thesis .
  qed
qed

lemma fl_mono: "x \<le> y \<Longrightarrow> fl x \<le> fl y"
proof -
  assume xy: "x \<le> y"
  consider "0 < x" | "x \<le> 0" "0 \<le> y" | "y < 0" by linarith
  then show ?thesis
  proof cases
    case 1
    then show ?thesis using xy by (rule fl_mono_pos)
  next
    case 2
    have "fl x = - fl (- x)" by (simp add: fl_minus)
    moreover have "0 \<le> fl (- x)" using 2 by (intro fl_nonneg) simp
    moreover have "0 \<le> fl y" using 2 by (intro fl_nonneg)
    ultimately show ?thesis by linarith
  next
    case 3
    then have "fl (- y) \<le> fl (- x)" using xy by (intro fl_mono_pos) simp_all
    then show ?thesis by (simp add: fl_minus)
  qed
qed

lemma fl_near:
  assumes "2 powi e \<le> y" "y < 2 powi (e + 1)" "- 1022 \<le> e"
    and "\<bar>y / 2 powi (e - 52) - of_int k\<bar> < 1 / 2"
  shows "fl y = 2 powi (e - 52) * of_int k"
proof -
  have y: "0 < y" using assms(1) by (rule less_le_trans [rotated]) simp
  have "expo y = e" using assms(1,2) by (rule expo_unique)
  then have "ulp_exp y = e - 52" using assms(3) y by (simp add: ulp_exp_def)
  then show ?thesis using y rne_near [OF assms(4)] by (simp add: fl_ulp)
qed


lemma fl_sqrt:
  assumes "(2 powi e)\<^sup>2 \<le> v" "v < (2 powi (e + 1))\<^sup>2" "- 1022 \<le> e" "1 \<le> k"
    and "((of_int k - 1 / 2) * 2 powi (e - 52))\<^sup>2 < v"
    and "v < ((of_int k + 1 / 2) * 2 powi (e - 52))\<^sup>2"
  shows "fl (sqrt v) = 2 powi (e - 52) * of_int k"
proof (rule fl_near [OF _ _ assms(3)])
  let ?u = "(2::real) powi (e - 52)"
  have u: "0 < ?u" by simp
  have v: "0 \<le> v" using assms(1) by (rule order_trans [rotated]) simp
  show "2 powi e \<le> sqrt v" using assms(1) by (rule real_le_rsqrt)
  show "sqrt v < 2 powi (e + 1)" using assms(2) v by (intro real_less_lsqrt) simp_all
  have k: "(0::real) \<le> (of_int k - 1 / 2) * ?u" using assms(4) by simp
  have lo: "(of_int k - 1 / 2) * ?u < sqrt v" using assms(5) by (rule real_less_rsqrt)
  have hi: "sqrt v < (of_int k + 1 / 2) * ?u"
    using assms(6) v assms(4) by (intro real_less_lsqrt) simp_all
  from lo hi u have "of_int k - 1 / 2 < sqrt v / ?u" "sqrt v / ?u < of_int k + 1 / 2"
    by (simp_all add: pos_less_divide_eq pos_divide_less_eq)
  then show "\<bar>sqrt v / ?u - of_int k\<bar> < 1 / 2" by linarith
qed



lemma rne_tie: "\<bar>m - of_int k\<bar> = 1 / 2 \<Longrightarrow> even k \<Longrightarrow> rne m = k"
proof -
  assume a: "\<bar>m - of_int k\<bar> = 1 / 2" and k: "even k"
  show ?thesis
  proof (cases "of_int k \<le> m")
    case True
    with a have m: "m = of_int k + 1 / 2" by linarith
    then have "\<lfloor>m\<rfloor> = k" by (simp add: floor_eq_iff)
    with m k show ?thesis by (simp add: rne_def Let_def)
  next
    case False
    have o: "of_int (k - 1) = of_int k - (1::real)" by simp
    from False a have m: "m = of_int (k - 1) + 1 / 2" unfolding o by linarith
    then have f: "\<lfloor>m\<rfloor> = k - 1" by (simp add: floor_eq_iff)
    have "m - of_int (k - 1) = 1 / 2" using m by simp
    then show ?thesis unfolding rne_def Let_def f using k by simp
  qed
qed

lemma rne_nearest_even:
  "\<bar>m - of_int k\<bar> < 1 / 2 \<or> (\<bar>m - of_int k\<bar> = 1 / 2 \<and> even k) \<Longrightarrow> rne m = k"
  using rne_near rne_tie by blast

text \<open>
  A rounding checked rather than computed: \<open>c\<close> is the rounding of \<open>y\<close> when \<open>e\<close> is
  the exponent of \<open>y\<close> and \<open>c\<close> is \<open>k\<close> quanta, \<open>k\<close> the integer nearest to the number
  of quanta in \<open>y\<close> (the even one of two equally near).
\<close>

lemma fl_value:
  assumes "2 powi e \<le> \<bar>y\<bar>" "\<bar>y\<bar> < 2 powi (e + 1)" "- 1022 \<le> e"
    and "\<bar>y / 2 powi (e - 52) - of_int k\<bar> < 1 / 2
         \<or> (\<bar>y / 2 powi (e - 52) - of_int k\<bar> = 1 / 2 \<and> even k)"
    and "c = 2 powi (e - 52) * of_int k"
  shows "fl y = c"
proof -
  have y: "y \<noteq> 0"
  proof
    assume "y = 0"
    with assms(1) have "(2::real) powi e \<le> 0" by simp
    moreover have "(0::real) < 2 powi e" by simp
    ultimately show False by linarith
  qed
  have "expo \<bar>y\<bar> = e" using assms(1,2) by (rule expo_unique)
  then have "ulp_exp y = e - 52" using assms(3) by (simp add: ulp_exp_def)
  then show ?thesis using y rne_nearest_even [OF assms(4)] assms(5) by (simp add: fl_ulp)
qed

lemma expo_zero: "expo 0 = 0"
  by (simp add: expo_def expo_down.simps)

lemma dbl_zero: "dbl 0 = Fin 0"
  by (simp add: dbl_def fl_def expo_zero)

lemma dbl_finite:
  assumes "\<bar>fl y\<bar> < 2 ^ 1024"
  shows "dbl y = Fin (fl y)"
proof (cases "fl y = 0")
  case True
  then show ?thesis by (simp add: dbl_def expo_zero)
next
  case False
  then have p: "0 < \<bar>fl y\<bar>" by simp
  have "2 powi expo \<bar>fl y\<bar> \<le> \<bar>fl y\<bar>" using expo_spec [OF p] by simp
  also have "\<dots> < 2 powi 1024" using assms by simp
  finally have "expo \<bar>fl y\<bar> < 1024"
    by (rule power_int_le_imp_less_exp [rotated]) simp_all
  then show ?thesis by (simp add: dbl_def)
qed

lemma dbl_op_value:
  assumes "x = dbl y"
    and "2 powi e \<le> \<bar>y\<bar>" "\<bar>y\<bar> < 2 powi (e + 1)" "- 1022 \<le> e"
    and "\<bar>y / 2 powi (e - 52) - of_int k\<bar> < 1 / 2
         \<or> (\<bar>y / 2 powi (e - 52) - of_int k\<bar> = 1 / 2 \<and> even k)"
    and "c = 2 powi (e - 52) * of_int k"
    and "\<bar>c\<bar> < 2 ^ 1024"
  shows "x = Fin c"
proof -
  have "fl y = c" using assms(2-6) by (rule fl_value)
  with dbl_finite [of y] assms(1,7) show ?thesis by simp
qed

lemma dbl_sqrt_value:
  assumes "(2 powi e)\<^sup>2 \<le> v" "v < (2 powi (e + 1))\<^sup>2" "- 1022 \<le> e" "1 \<le> k"
    and "((of_int k - 1 / 2) * 2 powi (e - 52))\<^sup>2 < v"
    and "v < ((of_int k + 1 / 2) * 2 powi (e - 52))\<^sup>2"
    and "c = 2 powi (e - 52) * of_int k"
  shows "dbl_sqrt (Fin v) = Fin c"
proof -
  have "0 \<le> v" using assms(1) by (rule order_trans [rotated]) simp
  then show ?thesis using fl_sqrt [OF assms(1-6)] assms(7) by simp
qed

subsection \<open>Anomaly detector\<close>

lemma detectAnomaly_unfold:
  "detectAnomaly amt cat hist =
     (let xs = map amount (filter (\<lambda>e. expense.category e = cat) hist)
      in xs \<noteq> [] \<and> dbl_greater (Fin amt) (anomalyThreshold xs))"
  by (simp add: detectAnomaly_def anomalyThreshold_def dbl_variance_def dbl_mean_def Let_def)

text \<open>The computed thresholds of two histories, operation by operation.\<close>

lemma threshold_boundary_history: "anomalyThreshold [1, 1, 1, 1, 110] = Fin (7740561859543039 / 70368744177664)"
proof -
  have s1: "dbl_add (Fin 0) (Fin 1) = Fin 1"
    by (rule dbl_op_value [where y = "0 + 1" and e = "0" and k = "4503599627370496"];
        simp add: dbl_sub_def)
  have s2: "dbl_add (Fin 1) (Fin 1) = Fin 2"
    by (rule dbl_op_value [where y = "1 + 1" and e = "1" and k = "4503599627370496"];
        simp add: dbl_sub_def)
  have s3: "dbl_add (Fin 2) (Fin 1) = Fin 3"
    by (rule dbl_op_value [where y = "2 + 1" and e = "1" and k = "6755399441055744"];
        simp add: dbl_sub_def)
  have s4: "dbl_add (Fin 3) (Fin 1) = Fin 4"
    by (rule dbl_op_value [where y = "3 + 1" and e = "2" and k = "4503599627370496"];
        simp add: dbl_sub_def)
  have s5: "dbl_add (Fin 4) (Fin 110) = Fin 114"
    by (rule dbl_op_value [where y = "4 + 110" and e = "6" and k = "8022036836253696"];
        simp add: dbl_sub_def)
  have s6: "dbl_div (Fin 114) (Fin 5) = Fin (6417629469002957 / 281474976710656)"
    by (rule dbl_op_value [where y = "114 / 5" and e = "4" and k = "6417629469002957"];
        simp add: dbl_sub_def)
  have s7: "dbl_sub (Fin 1) (Fin (6417629469002957 / 281474976710656)) = Fin (- (6136154492292301 / 281474976710656))"
    by (rule dbl_op_value [where y = "1 - (6417629469002957 / 281474976710656)" and e = "4" and k = "-6136154492292301"];
        simp add: dbl_sub_def)
  have s8: "dbl_mul (Fin (- (6136154492292301 / 281474976710656))) (Fin (- (6136154492292301 / 281474976710656))) = Fin (2090127623937065 / 4398046511104)"
    by (rule dbl_op_value [where y = "(- (6136154492292301 / 281474976710656)) * (- (6136154492292301 / 281474976710656))" and e = "8" and k = "8360510495748260"];
        simp add: dbl_sub_def)
  have s9: "dbl_add (Fin 0) (Fin (2090127623937065 / 4398046511104)) = Fin (2090127623937065 / 4398046511104)"
    by (rule dbl_op_value [where y = "0 + (2090127623937065 / 4398046511104)" and e = "8" and k = "8360510495748260"];
        simp add: dbl_sub_def)
  have s10: "dbl_add (Fin (2090127623937065 / 4398046511104)) (Fin (2090127623937065 / 4398046511104)) = Fin (2090127623937065 / 2199023255552)"
    by (rule dbl_op_value [where y = "(2090127623937065 / 4398046511104) + (2090127623937065 / 4398046511104)" and e = "9" and k = "8360510495748260"];
        simp add: dbl_sub_def)
  have s11: "dbl_add (Fin (2090127623937065 / 2199023255552)) (Fin (2090127623937065 / 4398046511104)) = Fin (6270382871811195 / 4398046511104)"
    by (rule dbl_op_value [where y = "(2090127623937065 / 2199023255552) + (2090127623937065 / 4398046511104)" and e = "10" and k = "6270382871811195"];
        simp add: dbl_sub_def)
  have s12: "dbl_add (Fin (6270382871811195 / 4398046511104)) (Fin (2090127623937065 / 4398046511104)) = Fin (2090127623937065 / 1099511627776)"
    by (rule dbl_op_value [where y = "(6270382871811195 / 4398046511104) + (2090127623937065 / 4398046511104)" and e = "10" and k = "8360510495748260"];
        simp add: dbl_sub_def)
  have s13: "dbl_sub (Fin 110) (Fin (6417629469002957 / 281474976710656)) = Fin (6136154492292301 / 70368744177664)"
    by (rule dbl_op_value [where y = "110 - (6417629469002957 / 281474976710656)" and e = "6" and k = "6136154492292301"];
        simp add: dbl_sub_def)
  have s14: "dbl_mul (Fin (6136154492292301 / 70368744177664)) (Fin (6136154492292301 / 70368744177664)) = Fin (2090127623937065 / 274877906944)"
    by (rule dbl_op_value [where y = "(6136154492292301 / 70368744177664) * (6136154492292301 / 70368744177664)" and e = "12" and k = "8360510495748260"];
        simp add: dbl_sub_def)
  have s15: "dbl_add (Fin (2090127623937065 / 1099511627776)) (Fin (2090127623937065 / 274877906944)) = Fin (2612659529921331 / 274877906944)"
    by (rule dbl_op_value [where y = "(2090127623937065 / 1099511627776) + (2090127623937065 / 274877906944)" and e = "13" and k = "5225319059842662"];
        simp add: dbl_sub_def)
  have s16: "dbl_div (Fin (2612659529921331 / 274877906944)) (Fin 5) = Fin (8360510495748259 / 4398046511104)"
    by (rule dbl_op_value [where y = "(2612659529921331 / 274877906944) / 5" and e = "10" and k = "8360510495748259"];
        simp add: dbl_sub_def)
  have s17: "dbl_sqrt (Fin (8360510495748259 / 4398046511104)) = Fin (1534038623073075 / 35184372088832)"
    by (rule dbl_sqrt_value [where e = "5" and k = "6136154492292300"]; simp add: power2_eq_square)
  have s18: "dbl_mul (Fin 2) (Fin (1534038623073075 / 35184372088832)) = Fin (1534038623073075 / 17592186044416)"
    by (rule dbl_op_value [where y = "2 * (1534038623073075 / 35184372088832)" and e = "6" and k = "6136154492292300"];
        simp add: dbl_sub_def)
  have s19: "dbl_add (Fin (6417629469002957 / 281474976710656)) (Fin (1534038623073075 / 17592186044416)) = Fin (7740561859543039 / 70368744177664)"
    by (rule dbl_op_value [where y = "(6417629469002957 / 281474976710656) + (1534038623073075 / 17592186044416)" and e = "6" and k = "7740561859543039"];
        simp add: dbl_sub_def)
  have len: "real (length [1, 1, 1, 1, 110::real]) = 5"
    by simp
  show ?thesis
    unfolding anomalyThreshold_def dbl_variance_def dbl_mean_def
    by (simp only: foldl_Cons foldl_Nil len
        s1 s2 s3 s4 s5 s6 s7 s8 s9 s10 s11 s12 s13 s14 s15 s16 s17 s18 s19)
qed

lemma threshold_software_history: "anomalyThreshold [100, 100, 100, 100, 5000] = Fin 5000"
proof -
  have s1: "dbl_add (Fin 0) (Fin 100) = Fin 100"
    by (rule dbl_op_value [where y = "0 + 100" and e = "6" and k = "7036874417766400"];
        simp add: dbl_sub_def)
  have s2: "dbl_add (Fin 100) (Fin 100) = Fin 200"
    by (rule dbl_op_value [where y = "100 + 100" and e = "7" and k = "7036874417766400"];
        simp add: dbl_sub_def)
  have s3: "dbl_add (Fin 200) (Fin 100) = Fin 300"
    by (rule dbl_op_value [where y = "200 + 100" and e = "8" and k = "5277655813324800"];
        simp add: dbl_sub_def)
  have s4: "dbl_add (Fin 300) (Fin 100) = Fin 400"
    by (rule dbl_op_value [where y = "300 + 100" and e = "8" and k = "7036874417766400"];
        simp add: dbl_sub_def)
  have s5: "dbl_add (Fin 400) (Fin 5000) = Fin 5400"
    by (rule dbl_op_value [where y = "400 + 5000" and e = "12" and k = "5937362789990400"];
        simp add: dbl_sub_def)
  have s6: "dbl_div (Fin 5400) (Fin 5) = Fin 1080"
    by (rule dbl_op_value [where y = "5400 / 5" and e = "10" and k = "4749890231992320"];
        simp add: dbl_sub_def)
  have s7: "dbl_sub (Fin 100) (Fin 1080) = Fin (- 980)"
    by (rule dbl_op_value [where y = "100 - 1080" and e = "9" and k = "-8620171161763840"];
        simp add: dbl_sub_def)
  have s8: "dbl_mul (Fin (- 980)) (Fin (- 980)) = Fin 960400"
    by (rule dbl_op_value [where y = "(- 980) * (- 980)" and e = "19" and k = "8249773182156800"];
        simp add: dbl_sub_def)
  have s9: "dbl_add (Fin 0) (Fin 960400) = Fin 960400"
    by (rule dbl_op_value [where y = "0 + 960400" and e = "19" and k = "8249773182156800"];
        simp add: dbl_sub_def)
  have s10: "dbl_add (Fin 960400) (Fin 960400) = Fin 1920800"
    by (rule dbl_op_value [where y = "960400 + 960400" and e = "20" and k = "8249773182156800"];
        simp add: dbl_sub_def)
  have s11: "dbl_add (Fin 1920800) (Fin 960400) = Fin 2881200"
    by (rule dbl_op_value [where y = "1920800 + 960400" and e = "21" and k = "6187329886617600"];
        simp add: dbl_sub_def)
  have s12: "dbl_add (Fin 2881200) (Fin 960400) = Fin 3841600"
    by (rule dbl_op_value [where y = "2881200 + 960400" and e = "21" and k = "8249773182156800"];
        simp add: dbl_sub_def)
  have s13: "dbl_sub (Fin 5000) (Fin 1080) = Fin 3920"
    by (rule dbl_op_value [where y = "5000 - 1080" and e = "11" and k = "8620171161763840"];
        simp add: dbl_sub_def)
  have s14: "dbl_mul (Fin 3920) (Fin 3920) = Fin 15366400"
    by (rule dbl_op_value [where y = "3920 * 3920" and e = "23" and k = "8249773182156800"];
        simp add: dbl_sub_def)
  have s15: "dbl_add (Fin 3841600) (Fin 15366400) = Fin 19208000"
    by (rule dbl_op_value [where y = "3841600 + 15366400" and e = "24" and k = "5156108238848000"];
        simp add: dbl_sub_def)
  have s16: "dbl_div (Fin 19208000) (Fin 5) = Fin 3841600"
    by (rule dbl_op_value [where y = "19208000 / 5" and e = "21" and k = "8249773182156800"];
        simp add: dbl_sub_def)
  have s17: "dbl_sqrt (Fin 3841600) = Fin 1960"
    by (rule dbl_sqrt_value [where e = "10" and k = "8620171161763840"]; simp add: power2_eq_square)
  have s18: "dbl_mul (Fin 2) (Fin 1960) = Fin 3920"
    by (rule dbl_op_value [where y = "2 * 1960" and e = "11" and k = "8620171161763840"];
        simp add: dbl_sub_def)
  have s19: "dbl_add (Fin 1080) (Fin 3920) = Fin 5000"
    by (rule dbl_op_value [where y = "1080 + 3920" and e = "12" and k = "5497558138880000"];
        simp add: dbl_sub_def)
  have len: "real (length [100, 100, 100, 100, 5000::real]) = 5"
    by simp
  show ?thesis
    unfolding anomalyThreshold_def dbl_variance_def dbl_mean_def
    by (simp only: foldl_Cons foldl_Nil len
        s1 s2 s3 s4 s5 s6 s7 s8 s9 s10 s11 s12 s13 s14 s15 s16 s17 s18 s19)
qed

text \<open>
  C3 (as amended). \<^verbatim>\<open>detectAnomaly\<close> returns false when no historical expense has the
  category; otherwise it returns true exactly when the amount is strictly greater than
  the threshold that the code computes from the same-category amounts in double
  arithmetic: the mean plus twice the population standard deviation, every operation
  rounded. An amount equal to the computed threshold is not flagged.
\<close>

theorem detectAnomaly_threshold:
  "((\<forall>e \<in> set hist. expense.category e \<noteq> cat) \<longrightarrow> detectAnomaly amt cat hist = False)
   \<and> ((\<exists>e \<in> set hist. expense.category e = cat) \<longrightarrow>
        detectAnomaly amt cat hist
          = dbl_greater (Fin amt)
              (anomalyThreshold (map amount (filter (\<lambda>e. expense.category e = cat) hist)))
        \<and> (\<forall>t. anomalyThreshold (map amount (filter (\<lambda>e. expense.category e = cat) hist))
                  = Fin t
               \<longrightarrow> detectAnomaly amt cat hist = (amt > t) \<and> \<not> detectAnomaly t cat hist))"
proof (intro conjI impI allI)
  assume "\<forall>e \<in> set hist. expense.category e \<noteq> cat"
  then have "filter (\<lambda>e. expense.category e = cat) hist = []"
    by (simp add: filter_empty_conv)
  then show "detectAnomaly amt cat hist = False"
    by (simp add: detectAnomaly_unfold)
next
  assume "\<exists>e \<in> set hist. expense.category e = cat"
  then have ne: "filter (\<lambda>e. expense.category e = cat) hist \<noteq> []"
    by (simp add: filter_empty_conv)
  then show "detectAnomaly amt cat hist
          = dbl_greater (Fin amt)
              (anomalyThreshold (map amount (filter (\<lambda>e. expense.category e = cat) hist)))"
    by (simp add: detectAnomaly_unfold Let_def)
  fix t
  assume "anomalyThreshold (map amount (filter (\<lambda>e. expense.category e = cat) hist)) = Fin t"
  with ne show "detectAnomaly amt cat hist = (amt > t)" "\<not> detectAnomaly t cat hist"
    by (simp_all add: detectAnomaly_unfold Let_def)
qed

text \<open>
  The scenario of the specification: the history of category software is
  100, 100, 100, 100, 5000. Every intermediate result is an integer, nothing is
  rounded, and the computed threshold is the exact one, 5000. An amount of 5000 is not
  flagged, 5001 is; and with a history of another category only, nothing is flagged.
\<close>

lemma software_history_stats:
  "mean [100, 100, 100, 100, 5000] = 1080"
  "population_stddev [100, 100, 100, 100, 5000] = 1960"
proof -
  show m: "mean [100, 100, 100, 100, 5000] = 1080" by (simp add: mean_def)
  have "population_stddev [100, 100, 100, 100, 5000] = sqrt (1960\<^sup>2)"
    unfolding population_stddev_def m by simp
  then show "population_stddev [100, 100, 100, 100, 5000] = 1960"
    by (simp only: real_sqrt_abs)
qed

theorem detectAnomaly_threshold_witness:
  "\<not> detectAnomaly 5000 ''software'' (map (mk_expense ''software'') [100, 100, 100, 100, 5000])
   \<and> detectAnomaly 5001 ''software'' (map (mk_expense ''software'') [100, 100, 100, 100, 5000])
   \<and> \<not> detectAnomaly 5001 ''software'' (map (mk_expense ''rent'') [100, 100, 100, 100, 5000])
   \<and> anomalyThreshold [100, 100, 100, 100, 5000]
       = Fin (mean [100, 100, 100, 100, 5000] + 2 * population_stddev [100, 100, 100, 100, 5000])"
proof -
  let ?h = "map (mk_expense ''software'') [100, 100, 100, 100, 5000]"
  let ?r = "map (mk_expense ''rent'') [100, 100, 100, 100, 5000]"
  have xs: "map amount (filter (\<lambda>e. expense.category e = ''software'') ?h)
              = [100, 100, 100, 100, 5000]"
    by (simp add: mk_expense_def)
  have ex: "\<exists>e \<in> set ?h. expense.category e = ''software''"
    by (simp add: mk_expense_def)
  have no: "\<forall>e \<in> set ?r. expense.category e \<noteq> ''software''"
    by (simp add: mk_expense_def)
  have t: "anomalyThreshold (map amount (filter (\<lambda>e. expense.category e = ''software'') ?h))
             = Fin 5000"
    unfolding xs by (rule threshold_software_history)
  from detectAnomaly_threshold [of ?h "''software''" 5000] ex t
  have a: "\<not> detectAnomaly 5000 ''software'' ?h" by blast
  from detectAnomaly_threshold [of ?h "''software''" 5001] ex t
  have "detectAnomaly 5001 ''software'' ?h = (5001 > (5000::real))" by blast
  then have b: "detectAnomaly 5001 ''software'' ?h" by simp
  from detectAnomaly_threshold [of ?r "''software''" 5001] no
  have c: "\<not> detectAnomaly 5001 ''software'' ?r" by blast
  have d: "anomalyThreshold [100, 100, 100, 100, 5000]
       = Fin (mean [100, 100, 100, 100, 5000] + 2 * population_stddev [100, 100, 100, 100, 5000])"
    by (simp only: software_history_stats threshold_software_history) simp
  from a b c d show ?thesis by blast
qed

text \<open>
  The claim as stated (an amount exactly equal to the mean plus twice the standard
  deviation is not flagged) fails. For the history 1, 1, 1, 1, 110 the mean is 22.8 and
  the standard deviation 43.6, so the exact threshold is 110. The mean 22.8 is not a
  double; the computed threshold is 109.99999999999999, and the amount 110 is flagged.
\<close>

lemma boundary_history_stats:
  "mean [1, 1, 1, 1, 110] = 114 / 5"
  "population_stddev [1, 1, 1, 1, 110] = 218 / 5"
proof -
  show m: "mean [1, 1, 1, 1, 110] = 114 / 5" by (simp add: mean_def)
  have "population_stddev [1, 1, 1, 1, 110] = sqrt ((218 / 5)\<^sup>2)"
    unfolding population_stddev_def m by (simp add: power2_eq_square)
  then show "population_stddev [1, 1, 1, 1, 110] = 218 / 5"
    by (simp only: real_sqrt_abs)
qed

theorem detectAnomaly_boundary_counterexample:
  "mean [1, 1, 1, 1, 110] + 2 * population_stddev [1, 1, 1, 1, 110] = 110
   \<and> detectAnomaly 110 ''software'' (map (mk_expense ''software'') [1, 1, 1, 1, 110])"
proof -
  have xs: "map amount (filter (\<lambda>e. expense.category e = ''software'')
                          (map (mk_expense ''software'') [1, 1, 1, 1, 110]))
              = [1, 1, 1, 1, 110]"
    by (simp add: mk_expense_def)
  have "detectAnomaly 110 ''software'' (map (mk_expense ''software'') [1, 1, 1, 1, 110])"
    unfolding detectAnomaly_unfold Let_def xs threshold_boundary_history by simp
  moreover have "mean [1, 1, 1, 1, 110] + 2 * population_stddev [1, 1, 1, 1, 110] = 110"
    by (simp add: boundary_history_stats)
  ultimately show ?thesis by blast
qed

subsection \<open>Categorizer\<close>

lemma keywordScore_matchCount: "keywordScore txt kws = matchCount txt kws"
proof -
  have "foldl (\<lambda>score keyword. if P keyword then score + 1 else score) n kws
          = n + length (filter P kws)" for P and n :: nat
    by (induction kws arbitrary: n) simp_all
  then show ?thesis by (simp add: keywordScore_def matchCount_def)
qed

lemma foldl_categorizeStep_candidates:
  "foldl (categorizeStep txt) best categoryKeywords = foldl (categorizeStep txt) best candidates"
proof -
  have "foldl (categorizeStep txt) best es
          = foldl (categorizeStep txt) best (filter (\<lambda>entry. fst entry \<noteq> ''other'') es)" for es
    by (induction es arbitrary: best) (simp_all add: categorizeStep_def)
  then show ?thesis by (simp add: candidates_def)
qed

text \<open>
  The loop invariant of the selection, over any list of entries without \<^verbatim>\<open>other\<close>: the
  result either is the initial state, no score being greater than the initial one, or it
  is the first entry of maximal score.
\<close>

lemma foldl_categorizeStep_first_max:
  assumes "\<forall>entry \<in> set es. fst entry \<noteq> ''other''"
  shows "(foldl (categorizeStep txt) (c0, n0) es = (c0, n0)
            \<and> (\<forall>j < length es. matchCount txt (snd (es ! j)) \<le> n0))
         \<or> (\<exists>i < length es.
               foldl (categorizeStep txt) (c0, n0) es
                 = (fst (es ! i), matchCount txt (snd (es ! i)))
               \<and> n0 < matchCount txt (snd (es ! i))
               \<and> (\<forall>j < length es. matchCount txt (snd (es ! j)) \<le> matchCount txt (snd (es ! i)))
               \<and> (\<forall>j < i. matchCount txt (snd (es ! j)) < matchCount txt (snd (es ! i))))"
  using assms
proof (induction es rule: rev_induct)
  case Nil
  then show ?case by simp
next
  case (snoc e es)
  let ?m = "\<lambda>x. matchCount txt (snd x)"
  from snoc.prems have no: "\<forall>entry \<in> set es. fst entry \<noteq> ''other''" and e: "fst e \<noteq> ''other''"
    by simp_all
  let ?prev = "foldl (categorizeStep txt) (c0, n0) es"
  have step: "foldl (categorizeStep txt) (c0, n0) (es @ [e])
                = (if ?m e > snd ?prev then (fst e, ?m e) else ?prev)"
    using e by (simp add: categorizeStep_def keywordScore_matchCount Let_def)
  from snoc.IH [OF no] show ?case
  proof (elim disjE exE conjE)
    assume prev: "?prev = (c0, n0)" and le: "\<forall>j < length es. ?m (es ! j) \<le> n0"
    show ?thesis
    proof (cases "?m e > n0")
      case True
      have "\<forall>j < length (es @ [e]). ?m ((es @ [e]) ! j) \<le> ?m e"
        using le True by (auto simp: nth_append less_Suc_eq)
      moreover have "\<forall>j < length es. ?m ((es @ [e]) ! j) < ?m e"
        using le True by (auto simp: nth_append)
      ultimately show ?thesis
        using step prev True
        by (intro disjI2 exI [of _ "length es"]) simp
    next
      case False
      then have "\<forall>j < length (es @ [e]). ?m ((es @ [e]) ! j) \<le> n0"
        using le by (auto simp: nth_append less_Suc_eq)
      then show ?thesis using step prev False by simp
    qed
  next
    fix i
    assume i: "i < length es"
      and prev: "?prev = (fst (es ! i), ?m (es ! i))"
      and gt: "n0 < ?m (es ! i)"
      and mx: "\<forall>j < length es. ?m (es ! j) \<le> ?m (es ! i)"
      and fst: "\<forall>j < i. ?m (es ! j) < ?m (es ! i)"
    show ?thesis
    proof (cases "?m e > ?m (es ! i)")
      case True
      have "\<forall>j < length (es @ [e]). ?m ((es @ [e]) ! j) \<le> ?m e"
        using mx True by (auto simp: nth_append less_Suc_eq intro: order_trans less_imp_le)
      moreover have "\<forall>j < length es. ?m ((es @ [e]) ! j) < ?m e"
        using mx True by (auto simp: nth_append intro: le_less_trans)
      moreover have "n0 < ?m e" using gt True by simp
      ultimately show ?thesis
        using step prev True
        by (intro disjI2 exI [of _ "length es"]) simp
    next
      case False
      have "\<forall>j < length (es @ [e]). ?m ((es @ [e]) ! j) \<le> ?m ((es @ [e]) ! i)"
        using mx False i by (auto simp: nth_append less_Suc_eq)
      moreover have "\<forall>j < i. ?m ((es @ [e]) ! j) < ?m ((es @ [e]) ! i)"
        using fst i by (auto simp: nth_append)
      moreover have "foldl (categorizeStep txt) (c0, n0) (es @ [e])
                       = (fst ((es @ [e]) ! i), ?m ((es @ [e]) ! i))"
        using step prev False i by (simp add: nth_append)
      moreover have "n0 < ?m ((es @ [e]) ! i)" using gt i by (simp add: nth_append)
      ultimately show ?thesis
        using i by (intro disjI2 exI [of _ i]) simp
    qed
  qed
qed

lemma candidates_not_other: "\<forall>entry \<in> set candidates. fst entry \<noteq> ''other''"
  by (simp add: candidates_def)

lemma categorizeExpense_best:
  "categorizeExpense title' description' amount'
     = (let best = foldl (categorizeStep (toLowerCase (title' @ '' '' @ description')))
                     (''other'', 0) candidates
        in \<lparr> categorized.category = fst best,
             confidence = (if snd best > 0 then min (0.7 + real (snd best) * 0.1) 0.98 else 0.5) \<rparr>)"
  by (simp add: categorizeExpense_def Let_def foldl_categorizeStep_candidates)

text \<open>
  C6. On the lower-cased text \<^verbatim>\<open>title + " " + description\<close>, with the keyword-match
  count of each candidate category: if every count is 0 the result is \<^verbatim>\<open>other\<close> with
  confidence 0.5; otherwise the result is the category of greatest count, the first in
  declaration order among those of that count (every earlier category has a strictly
  smaller count), with confidence min (0.7 + 0.1 * count, 0.98).
\<close>

theorem categorizeExpense_spec:
  "let txt = toLowerCase (title' @ '' '' @ description');
       r = categorizeExpense title' description' amount';
       m = (\<lambda>j. matchCount txt (snd (candidates ! j)))
   in ((\<forall>j < length candidates. m j = 0) \<longrightarrow>
         categorized.category r = ''other'' \<and> confidence r = 0.5)
    \<and> ((\<exists>j < length candidates. 0 < m j) \<longrightarrow>
         (\<exists>i < length candidates.
            categorized.category r = fst (candidates ! i)
            \<and> 0 < m i
            \<and> (\<forall>j < length candidates. m j \<le> m i)
            \<and> (\<forall>j < i. m j < m i)
            \<and> confidence r = min (0.7 + 0.1 * real (m i)) 0.98))"
proof -
  let ?txt = "toLowerCase (title' @ '' '' @ description')"
  let ?r = "categorizeExpense title' description' amount'"
  let ?m = "\<lambda>j. matchCount ?txt (snd (candidates ! j))"
  let ?best = "foldl (categorizeStep ?txt) (''other'', 0) candidates"
  have r: "categorized.category ?r = fst ?best"
    "confidence ?r = (if snd ?best > 0 then min (0.7 + real (snd ?best) * 0.1) 0.98 else 0.5)"
    by (simp_all add: categorizeExpense_best Let_def)
  from foldl_categorizeStep_first_max [OF candidates_not_other, of ?txt "''other''" 0]
  consider (none) "?best = (''other'', 0)" "\<forall>j < length candidates. ?m j \<le> 0"
    | (some) i where "i < length candidates" "?best = (fst (candidates ! i), ?m i)"
        "0 < ?m i" "\<forall>j < length candidates. ?m j \<le> ?m i" "\<forall>j < i. ?m j < ?m i"
    by blast
  then have "((\<forall>j < length candidates. ?m j = 0) \<longrightarrow>
         categorized.category ?r = ''other'' \<and> confidence ?r = 0.5)
    \<and> ((\<exists>j < length candidates. 0 < ?m j) \<longrightarrow>
         (\<exists>i < length candidates.
            categorized.category ?r = fst (candidates ! i)
            \<and> 0 < ?m i
            \<and> (\<forall>j < length candidates. ?m j \<le> ?m i)
            \<and> (\<forall>j < i. ?m j < ?m i)
            \<and> confidence ?r = min (0.7 + 0.1 * real (?m i)) 0.98))"
  proof cases
    case none
    then have "\<not> (\<exists>j < length candidates. 0 < ?m j)" by auto
    moreover have "categorized.category ?r = ''other''" "confidence ?r = 0.5"
      using none r by simp_all
    ultimately show ?thesis by blast
  next
    case some
    then have "\<not> (\<forall>j < length candidates. ?m j = 0)" by auto
    moreover have "categorized.category ?r = fst (candidates ! i)"
      using some r by simp
    moreover have "confidence ?r = min (0.7 + 0.1 * real (?m i)) 0.98"
      using some r by (simp add: mult.commute)
    ultimately show ?thesis using some by blast
  qed
  then show ?thesis by (simp only: Let_def)
qed

theorem categorizeExpense_spec_witness:
  "categorized.category (categorizeExpense ''Office rent'' [] 120) = ''rent''
   \<and> confidence (categorizeExpense ''Office rent'' [] 120) = 0.8
   \<and> categorized.category (categorizeExpense ''Team lunch'' [] 45) = ''other''
   \<and> confidence (categorizeExpense ''Team lunch'' [] 45) = 0.5"
proof -
  have len: "length candidates = 7" by code_simp
  \<comment> \<open>a tie between rent and office supplies: the earlier category wins\<close>
  let ?r = "categorizeExpense ''Office rent'' [] 120"
  define m where "m j = matchCount (toLowerCase (''Office rent'' @ '' '' @ [])) (snd (candidates ! j))"
    for j
  have mv: "m 0 = 0" "m 1 = 0" "m 2 = 1" "m 3 = 0" "m 4 = 0" "m 5 = 1" "m 6 = 0"
    unfolding m_def by code_simp+
  have "\<exists>j < length candidates. 0 < m j"
    using mv(3) len by (intro exI [of _ 2]) simp
  with categorizeExpense_spec [of "''Office rent''" "[]" 120]
  have "\<exists>i < 7. categorized.category ?r = fst (candidates ! i)
          \<and> (\<forall>j < 7. m j \<le> m i) \<and> (\<forall>j < i. m j < m i)
          \<and> confidence ?r = min (0.7 + 0.1 * real (m i)) 0.98"
    unfolding Let_def len m_def by blast
  then obtain i where i: "i < 7" "categorized.category ?r = fst (candidates ! i)"
    "\<forall>j < 7. m j \<le> m i" "\<forall>j < i. m j < m i"
    "confidence ?r = min (0.7 + 0.1 * real (m i)) 0.98"
    by blast
  from i(3) have "m 2 \<le> m i" by simp
  then have pos: "1 \<le> m i" by (simp add: mv)
  from i(1) consider "i = 0" | "i = 1" | "i = 2" | "i = 3" | "i = 4" | "i = 5" | "i = 6"
    by linarith
  then have "i = 2"
  proof cases
    case 6
    with i(4) have "m 2 < m 5" by simp
    then show ?thesis by (simp add: mv)
  qed (use pos mv in simp_all)
  moreover have "fst (candidates ! 2) = ''rent''" by code_simp
  ultimately have a: "categorized.category ?r = ''rent''" "confidence ?r = 0.8"
    using i(2) i(5) mv(3) by simp_all
  \<comment> \<open>no keyword matches\<close>
  have "list_all (\<lambda>e. matchCount (toLowerCase (''Team lunch'' @ '' '' @ [])) (snd e) = 0)
          candidates"
    by code_simp
  then have "\<forall>j < length candidates.
               matchCount (toLowerCase (''Team lunch'' @ '' '' @ [])) (snd (candidates ! j)) = 0"
    by (simp only: list_all_length)
  with categorizeExpense_spec [of "''Team lunch''" "[]" 45]
  have b: "categorized.category (categorizeExpense ''Team lunch'' [] 45) = ''other''"
    "confidence (categorizeExpense ''Team lunch'' [] 45) = 0.5"
    unfolding Let_def by blast+
  from a b show ?thesis by blast
qed

text \<open>
  C10. The result of \<^verbatim>\<open>categorizeExpense\<close> does not depend on the amount: for the same
  title and description, any two amounts give the same category and confidence.
\<close>

theorem categorizeExpense_amount_independent:
  "categorized.category (categorizeExpense t d a1) = categorized.category (categorizeExpense t d a2)
     \<and> confidence (categorizeExpense t d a1) = confidence (categorizeExpense t d a2)"
  by (simp add: categorizeExpense_def)

theorem categorizeExpense_amount_independent_witness:
  "categorized.category (categorizeExpense ''AWS invoice'' ''cloud hosting'' 310)
     = categorized.category (categorizeExpense ''AWS invoice'' ''cloud hosting'' 99999)
   \<and> confidence (categorizeExpense ''AWS invoice'' ''cloud hosting'' 310)
     = confidence (categorizeExpense ''AWS invoice'' ''cloud hosting'' 99999)"
  by (rule categorizeExpense_amount_independent)












subsection \<open>Health scorer\<close>

text \<open>The constants of the score are doubles: rounding leaves them as they are.\<close>

lemma fl_1: "fl 1 = 1"
  by (rule fl_value [where e = "0" and k = "4503599627370496"]; simp)

lemma fl_10: "fl 10 = 10"
  by (rule fl_value [where e = "3" and k = "5629499534213120"]; simp)

lemma fl_15: "fl 15 = 15"
  by (rule fl_value [where e = "3" and k = "8444249301319680"]; simp)

lemma fl_20: "fl 20 = 20"
  by (rule fl_value [where e = "4" and k = "5629499534213120"]; simp)

lemma fl_30: "fl 30 = 30"
  by (rule fl_value [where e = "4" and k = "8444249301319680"]; simp)

lemma fl_40: "fl 40 = 40"
  by (rule fl_value [where e = "5" and k = "5629499534213120"]; simp)

lemma fl_70: "fl 70 = 70"
  by (rule fl_value [where e = "6" and k = "4925812092436480"]; simp)

lemma fl_100: "fl 100 = 100"
  by (rule fl_value [where e = "6" and k = "7036874417766400"]; simp)

lemma fl_minus_10: "fl (- 10) = - 10"
  by (rule fl_value [where e = "3" and k = "-5629499534213120"]; simp)

lemma fl_0: "fl 0 = 0"
  by (simp add: fl_def)

lemmas fl_constants = fl_0 fl_1 fl_10 fl_15 fl_20 fl_30 fl_40 fl_70 fl_100 fl_minus_10


lemma toFixed1_bounds:
  assumes "0 \<le> x" "x \<le> 10"
  shows "0 \<le> toFixed1 x" "toFixed1 x \<le> 10" "\<bar>toFixed1 x - x\<bar> \<le> 1 / 20"
proof -
  let ?n = "\<lfloor>x * 10 + 1 / 2\<rfloor>"
  have t: "toFixed1 x = of_int ?n / 10" using assms by (simp add: toFixed1_def)
  have lo: "of_int ?n \<le> x * 10 + 1 / 2" by (rule of_int_floor_le)
  have hi: "x * 10 + 1 / 2 < of_int ?n + 1" by linarith
  have "0 \<le> ?n" using assms by simp
  then show "0 \<le> toFixed1 x" by (simp add: t)
  have "?n \<le> \<lfloor>(100::real) + 1 / 2\<rfloor>" using assms by (intro floor_mono) simp
  also have "\<dots> = 100" by linarith
  finally have "(of_int ?n :: real) \<le> 100" by linarith
  then show "toFixed1 x \<le> 10" by (simp add: t)
  have "of_int ?n / 10 - x \<le> 1 / 20" "x - of_int ?n / 10 \<le> 1 / 20"
    using lo hi by linarith+
  then show "\<bar>toFixed1 x - x\<bar> \<le> 1 / 20" unfolding t by linarith
qed

lemma fl_between: "a \<le> x \<Longrightarrow> x \<le> b \<Longrightarrow> fl a = a \<Longrightarrow> fl b = b \<Longrightarrow> a \<le> fl x \<and> fl x \<le> b"
  using fl_mono [of a x] fl_mono [of x b] by simp

lemma rate_bounds:
  "0 \<le> anomalyRate es" "anomalyRate es \<le> 1" "0 \<le> pendingRate es" "pendingRate es \<le> 1"
proof -
  have "length (filter P es) \<le> max (length es) 1" for P :: "expense \<Rightarrow> bool"
    using length_filter_le [of P es] by (simp add: le_max_iff_disj)
  then have "0 \<le> real (length (filter P es)) / real (max (length es) 1)
      \<and> real (length (filter P es)) / real (max (length es) 1) \<le> 1" for P :: "expense \<Rightarrow> bool"
    by (simp add: divide_le_eq_1)
  then have "0 \<le> fl (real (length (filter P es)) / real (max (length es) 1))
      \<and> fl (real (length (filter P es)) / real (max (length es) 1)) \<le> 1"
    for P :: "expense \<Rightarrow> bool"
    using fl_between [OF _ _ fl_0 fl_1] by blast
  then show "0 \<le> anomalyRate es" "anomalyRate es \<le> 1" "0 \<le> pendingRate es"
    "pendingRate es \<le> 1"
    unfolding anomalyRate_def pendingRate_def by blast+
qed

lemma expenseScore_bounds: "0 \<le> expenseScore es" "expenseScore es \<le> 40"
proof -
  show "0 \<le> expenseScore es" by (simp add: expenseScore_def)
  have "0 \<le> fl (anomalyRate es * 15)"
    using rate_bounds(1) [of es] by (intro fl_nonneg) simp
  then have "40 - fl (anomalyRate es * 15) \<le> 40" by simp
  then have "fl (40 - fl (anomalyRate es * 15)) \<le> 40"
    using fl_mono [of "40 - fl (anomalyRate es * 15)" 40] by (simp add: fl_40)
  moreover have "0 \<le> fl (pendingRate es * 10)"
    using rate_bounds(3) [of es] by (intro fl_nonneg) simp
  ultimately have "fl (40 - fl (anomalyRate es * 15)) - fl (pendingRate es * 10) \<le> 40"
    by linarith
  then have "fl (fl (40 - fl (anomalyRate es * 15)) - fl (pendingRate es * 10)) \<le> 40"
    using fl_mono [of _ 40] by (simp add: fl_40)
  then show "expenseScore es \<le> 40" by (simp add: expenseScore_def)
qed

lemma payrollScore_bounds: "0 \<le> payrollScore pp" "0 \<le> pp \<Longrightarrow> payrollScore pp \<le> 30"
proof -
  show "0 \<le> payrollScore pp" by (simp add: payrollScore_def)
  assume "0 \<le> pp"
  then have "0 \<le> fl (pp * 5)" by (intro fl_nonneg) simp
  then have "30 - fl (pp * 5) \<le> 30" by simp
  then have "fl (30 - fl (pp * 5)) \<le> 30"
    using fl_mono [of "30 - fl (pp * 5)" 30] by (simp add: fl_30)
  then show "payrollScore pp \<le> 30" by (simp add: payrollScore_def)
qed

text \<open>
  The loop over the budgets. Its steps from 30 to 20, 10 and 0 are exact, and below 0
  the running score stays below 0, whatever the rounding.
\<close>

lemma foldl_minus_ten_nonpos:
  "acc \<le> 0 \<Longrightarrow> foldl (\<lambda>acc b. if P b then fl (acc - 10) else acc) acc bs \<le> 0"
proof (induction bs arbitrary: acc)
  case Nil
  then show ?case by simp
next
  case (Cons b bs)
  have "fl (acc - 10) \<le> 0" using fl_mono [of "acc - 10" 0] Cons.prems by (simp add: fl_0)
  with Cons show ?case by simp
qed

lemma foldl_minus_ten:
  "acc = 0 \<or> acc = 10 \<or> acc = 20 \<or> acc = 30 \<Longrightarrow>
     max 0 (foldl (\<lambda>acc b. if P b then fl (acc - 10) else acc) acc bs)
       = max 0 (acc - 10 * real (length (filter P bs)))"
proof (induction bs arbitrary: acc)
  case Nil
  then show ?case by simp
next
  case (Cons b bs)
  let ?f = "\<lambda>acc b. if P b then fl (acc - 10) else acc"
  show ?case
  proof (cases "P b")
    case False
    then show ?thesis using Cons.IH [OF Cons.prems] by simp
  next
    case True
    show ?thesis
    proof (cases "acc = 0")
      case z: True
      have "foldl ?f (fl (- 10)) bs \<le> 0" by (rule foldl_minus_ten_nonpos) (simp add: fl_minus_10)
      then show ?thesis using True z by simp
    next
      case False
      with Cons.prems have a: "acc = 10 \<or> acc = 20 \<or> acc = 30" by blast
      then have s: "fl (acc - 10) = acc - 10" by (auto simp: fl_constants)
      from a have "acc - 10 = 0 \<or> acc - 10 = 10 \<or> acc - 10 = 20 \<or> acc - 10 = 30" by auto
      from Cons.IH [OF this]
      have "max 0 (foldl ?f (acc - 10) bs)
              = max 0 (acc - 10 - 10 * real (length (filter P bs)))" .
      moreover have "foldl ?f acc (b # bs) = foldl ?f (acc - 10) bs"
        using True s by simp
      moreover have "acc - 10 * real (length (filter P (b # bs)))
                       = acc - 10 - 10 * real (length (filter P bs))"
        using True by simp
      ultimately show ?thesis by (simp only:)
    qed
  qed
qed

lemma budgetStep_monthSpend:
  "budgetStep (monthlyExpenses now es)
     = (\<lambda>acc b. if monthSpend now es (budget.category b) > monthly_limit b
                then fl (acc - 10) else acc)"
  by (intro ext) (simp add: budgetStep_def monthSpend_def Let_def)

lemma budgetScore_closed:
  "budgetScore now es bs
     = max 0 (30 - 10 * real (length
         (filter (\<lambda>b. monthSpend now es (budget.category b) > monthly_limit b) bs)))"
  unfolding budgetScore_def budgetStep_monthSpend by (rule foldl_minus_ten) simp

lemma budgetScore_bounds: "0 \<le> budgetScore now es bs" "budgetScore now es bs \<le> 30"
  by (simp_all add: budgetScore_closed)

lemma budgetScore_values:
  "budgetScore now es bs = 0 \<or> budgetScore now es bs = 10
   \<or> budgetScore now es bs = 20 \<or> budgetScore now es bs = 30"
proof -
  let ?k = "length (filter (\<lambda>b. monthSpend now es (budget.category b) > monthly_limit b) bs)"
  consider "?k = 0" | "?k = 1" | "?k = 2" | "3 \<le> ?k" by linarith
  then show ?thesis by cases (simp_all add: budgetScore_closed)
qed

lemma scoreOutOf10_bounds:
  assumes "0 \<le> pendingPayroll"
  shows "0 \<le> scoreOutOf10 now es bs pendingPayroll" "scoreOutOf10 now es bs pendingPayroll \<le> 10"
proof -
  let ?e = "expenseScore es" and ?p = "payrollScore pendingPayroll"
    and ?b = "budgetScore now es bs"
  have "0 \<le> ?e + ?p" "?e + ?p \<le> 70"
    using expenseScore_bounds [of es] payrollScore_bounds [of pendingPayroll] assms by simp_all
  then have 1: "0 \<le> fl (?e + ?p) \<and> fl (?e + ?p) \<le> 70"
    by (rule fl_between) (simp_all add: fl_constants)
  then have "0 \<le> fl (?e + ?p) + ?b" "fl (?e + ?p) + ?b \<le> 100"
    using budgetScore_bounds [of now es bs] by simp_all
  then have 2: "0 \<le> fl (fl (?e + ?p) + ?b) \<and> fl (fl (?e + ?p) + ?b) \<le> 100"
    by (rule fl_between) (simp_all add: fl_constants)
  then have "0 \<le> fl (fl (?e + ?p) + ?b) / 10" "fl (fl (?e + ?p) + ?b) / 10 \<le> 10"
    by simp_all
  then have "0 \<le> fl (fl (fl (?e + ?p) + ?b) / 10) \<and> fl (fl (fl (?e + ?p) + ?b) / 10) \<le> 10"
    by (rule fl_between) (simp_all add: fl_constants)
  then show "0 \<le> scoreOutOf10 now es bs pendingPayroll"
    "scoreOutOf10 now es bs pendingPayroll \<le> 10"
    by (simp_all add: scoreOutOf10_def Let_def)
qed

text \<open>
  C2 (as amended). For a non-negative pending-payroll count, \<^verbatim>\<open>overall_score\<close> is the
  score out of 10 (the sum of the three components divided by 10, as the double
  arithmetic computes it) rounded to one decimal; it lies in [0, 10] and differs from
  the score by at most 0.05. The grade is given by the thresholds 9, 7, 5, 3 applied to
  the score before that rounding.
\<close>

theorem calculateHealthScore_score_and_grade:
  assumes "0 \<le> pendingPayroll"
  shows "let r = calculateHealthScore now es bs pendingPayroll;
             s = scoreOutOf10 now es bs pendingPayroll
         in overall_score r = toFixed1 s
            \<and> 0 \<le> s \<and> s \<le> 10
            \<and> 0 \<le> overall_score r \<and> overall_score r \<le> 10
            \<and> \<bar>overall_score r - s\<bar> \<le> 1 / 20
            \<and> grade r = (if s \<ge> 9 then GradeA else if s \<ge> 7 then GradeB
                         else if s \<ge> 5 then GradeC else if s \<ge> 3 then GradeD else GradeF)"
proof -
  note b = scoreOutOf10_bounds [OF assms, of now es bs]
  from toFixed1_bounds [OF b] b show ?thesis
    by (simp add: calculateHealthScore_def Let_def)
qed

text \<open>
  Thirteen expenses with eight anomalies and one pending, six pending payrolls and
  three exceeded budgets: the payroll and budget components are 0 and the expense
  component, 30 in exact arithmetic, is computed as 29.999999999999996. The score is
  2.9999999999999996, below the threshold 3: the grade is F, and \<^verbatim>\<open>overall_score\<close>
  is 3.0.
\<close>

lemma thirteen_rates:
  "anomalyRate thirteen_expenses = 1385722962267845 / 2251799813685248"
  "pendingRate thirteen_expenses = 1385722962267845 / 18014398509481984"
proof -
  have f1: "fl (8 / 13) = 1385722962267845 / 2251799813685248"
    by (rule fl_value [where e = "-1" and k = "5542891849071380"]; simp)
  have f2: "fl (1 / 13) = 1385722962267845 / 18014398509481984"
    by (rule fl_value [where e = "-4" and k = "5542891849071380"]; simp)
  have f3: "fl ((1385722962267845 / 2251799813685248) * 15) = 5196461108504419 / 562949953421312"
    by (rule fl_value [where e = "3" and k = "5196461108504419"]; simp)
  have f4: "fl (40 - (5196461108504419 / 562949953421312)) = 4330384257087015 / 140737488355328"
    by (rule fl_value [where e = "4" and k = "8660768514174030"]; simp)
  have f5: "fl ((1385722962267845 / 18014398509481984) * 10) = 6928614811339225 / 9007199254740992"
    by (rule fl_value [where e = "-1" and k = "6928614811339225"]; simp)
  have f6: "fl ((4330384257087015 / 140737488355328) - (6928614811339225 / 9007199254740992)) = 8444249301319679 / 281474976710656"
    by (rule fl_value [where e = "4" and k = "8444249301319679"]; simp)
  have f7: "fl (6 * 5) = 30"
    by (rule fl_value [where e = "4" and k = "8444249301319680"]; simp)
  have f8: "fl (30 - 30) = 0"
    by (simp add: fl_def)
  have f9: "fl ((8444249301319679 / 281474976710656) + 0) = 8444249301319679 / 281474976710656"
    by (rule fl_value [where e = "4" and k = "8444249301319679"]; simp)
  have f10: "fl ((8444249301319679 / 281474976710656) / 10) = 6755399441055743 / 2251799813685248"
    by (rule fl_value [where e = "1" and k = "6755399441055743"]; simp)
  have "real (length (filter (\<lambda>e. is_anomaly e) thirteen_expenses))
          / real (max (length thirteen_expenses) 1) = 8 / 13"
    by (simp add: thirteen_expenses_def mk_expense_def numeral_eq_Suc)
  then show "anomalyRate thirteen_expenses = 1385722962267845 / 2251799813685248"
    unfolding anomalyRate_def by (simp only: f1)
  have "real (length (filter (\<lambda>e. status e = pending) thirteen_expenses))
          / real (max (length thirteen_expenses) 1) = 1 / 13"
    by (simp add: thirteen_expenses_def mk_expense_def numeral_eq_Suc)
  then show "pendingRate thirteen_expenses = 1385722962267845 / 18014398509481984"
    unfolding pendingRate_def by (simp only: f2)
qed

lemma thirteen_score:
  "scoreOutOf10 january2024 thirteen_expenses three_rent_budgets 6 = 6755399441055743 / 2251799813685248"
proof -
  have f1: "fl (8 / 13) = 1385722962267845 / 2251799813685248"
    by (rule fl_value [where e = "-1" and k = "5542891849071380"]; simp)
  have f2: "fl (1 / 13) = 1385722962267845 / 18014398509481984"
    by (rule fl_value [where e = "-4" and k = "5542891849071380"]; simp)
  have f3: "fl ((1385722962267845 / 2251799813685248) * 15) = 5196461108504419 / 562949953421312"
    by (rule fl_value [where e = "3" and k = "5196461108504419"]; simp)
  have f4: "fl (40 - (5196461108504419 / 562949953421312)) = 4330384257087015 / 140737488355328"
    by (rule fl_value [where e = "4" and k = "8660768514174030"]; simp)
  have f5: "fl ((1385722962267845 / 18014398509481984) * 10) = 6928614811339225 / 9007199254740992"
    by (rule fl_value [where e = "-1" and k = "6928614811339225"]; simp)
  have f6: "fl ((4330384257087015 / 140737488355328) - (6928614811339225 / 9007199254740992)) = 8444249301319679 / 281474976710656"
    by (rule fl_value [where e = "4" and k = "8444249301319679"]; simp)
  have f7: "fl (6 * 5) = 30"
    by (rule fl_value [where e = "4" and k = "8444249301319680"]; simp)
  have f8: "fl (30 - 30) = 0"
    by (simp add: fl_def)
  have f9: "fl ((8444249301319679 / 281474976710656) + 0) = 8444249301319679 / 281474976710656"
    by (rule fl_value [where e = "4" and k = "8444249301319679"]; simp)
  have f10: "fl ((8444249301319679 / 281474976710656) / 10) = 6755399441055743 / 2251799813685248"
    by (rule fl_value [where e = "1" and k = "6755399441055743"]; simp)
  have e: "expenseScore thirteen_expenses = 8444249301319679 / 281474976710656"
    unfolding expenseScore_def thirteen_rates by (simp only: f1 f2 f3 f4 f5 f6 f7 f8 f9 f10; simp)
  have p: "payrollScore 6 = 0"
    unfolding payrollScore_def by (simp only: f1 f2 f3 f4 f5 f6 f7 f8 f9 f10; simp)
  have "monthSpend january2024 thirteen_expenses ''rent'' = 100"
    by (simp add: monthSpend_def monthlyExpenses_def january2024_def thirteen_expenses_def
        mk_expense_def fl_100)
  then have b: "budgetScore january2024 thirteen_expenses three_rent_budgets = 0"
    by (simp add: budgetScore_closed three_rent_budgets_def numeral_eq_Suc)
  show ?thesis
    unfolding scoreOutOf10_def Let_def e p b by (simp only: f1 f2 f3 f4 f5 f6 f7 f8 f9 f10)
qed

theorem calculateHealthScore_score_and_grade_witness:
  "(0::real) \<le> 6
   \<and> (let r = calculateHealthScore january2024 thirteen_expenses three_rent_budgets 6
      in overall_score r = 3 \<and> grade r = GradeF)"
proof -
  have f: "\<lfloor>(6755399441055743 / 2251799813685248 :: real) * 10 + 1 / 2\<rfloor> = 30" by linarith
  have h: "(0::real) \<le> 6" by simp
  from calculateHealthScore_score_and_grade [OF h, of january2024 thirteen_expenses three_rent_budgets]
  show ?thesis unfolding Let_def thirteen_score by (simp add: toFixed1_def f)
qed

lemma eleven_rates:
  "anomalyRate eleven_expenses = 8188362958855447 / 9007199254740992"
  "pendingRate eleven_expenses = 3275345183542179 / 18014398509481984"
proof -
  have f1: "fl (10 / 11) = 8188362958855447 / 9007199254740992"
    by (rule fl_value [where e = "-1" and k = "8188362958855447"]; simp)
  have f2: "fl (2 / 11) = 3275345183542179 / 18014398509481984"
    by (rule fl_value [where e = "-3" and k = "6550690367084358"]; simp)
  have f3: "fl ((8188362958855447 / 9007199254740992) * 15) = 3838295136963491 / 281474976710656"
    by (rule fl_value [where e = "3" and k = "7676590273926982"]; simp)
  have f4: "fl (40 - (3838295136963491 / 281474976710656)) = 7420703931462749 / 281474976710656"
    by (rule fl_value [where e = "4" and k = "7420703931462749"]; simp)
  have f5: "fl ((3275345183542179 / 18014398509481984) * 10) = 1023545369856931 / 562949953421312"
    by (rule fl_value [where e = "0" and k = "8188362958855448"]; simp)
  have f6: "fl ((7420703931462749 / 281474976710656) - (1023545369856931 / 562949953421312)) = 1727232811633571 / 70368744177664"
    by (rule fl_value [where e = "4" and k = "6908931246534284"]; simp)
  have f7: "fl (3 * 5) = 15"
    by (rule fl_value [where e = "3" and k = "8444249301319680"]; simp)
  have f8: "fl (30 - 15) = 15"
    by (rule fl_value [where e = "3" and k = "8444249301319680"]; simp)
  have f9: "fl ((1727232811633571 / 70368744177664) + 15) = 2782763974298531 / 70368744177664"
    by (rule fl_value [where e = "5" and k = "5565527948597062"]; simp)
  have f10: "fl ((2782763974298531 / 70368744177664) + 30) = 4893826299628451 / 70368744177664"
    by (rule fl_value [where e = "6" and k = "4893826299628451"]; simp)
  have f11: "fl ((4893826299628451 / 70368744177664) / 10) = 3915061039702761 / 562949953421312"
    by (rule fl_value [where e = "2" and k = "7830122079405522"]; simp)
  have "real (length (filter (\<lambda>e. is_anomaly e) eleven_expenses))
          / real (max (length eleven_expenses) 1) = 10 / 11"
    by (simp add: eleven_expenses_def mk_expense_def numeral_eq_Suc)
  then show "anomalyRate eleven_expenses = 8188362958855447 / 9007199254740992"
    unfolding anomalyRate_def by (simp only: f1)
  have "real (length (filter (\<lambda>e. status e = pending) eleven_expenses))
          / real (max (length eleven_expenses) 1) = 2 / 11"
    by (simp add: eleven_expenses_def mk_expense_def numeral_eq_Suc)
  then show "pendingRate eleven_expenses = 3275345183542179 / 18014398509481984"
    unfolding pendingRate_def by (simp only: f2)
qed

lemma eleven_score:
  "scoreOutOf10 january2024 eleven_expenses [] 3 = 3915061039702761 / 562949953421312"
proof -
  have f1: "fl (10 / 11) = 8188362958855447 / 9007199254740992"
    by (rule fl_value [where e = "-1" and k = "8188362958855447"]; simp)
  have f2: "fl (2 / 11) = 3275345183542179 / 18014398509481984"
    by (rule fl_value [where e = "-3" and k = "6550690367084358"]; simp)
  have f3: "fl ((8188362958855447 / 9007199254740992) * 15) = 3838295136963491 / 281474976710656"
    by (rule fl_value [where e = "3" and k = "7676590273926982"]; simp)
  have f4: "fl (40 - (3838295136963491 / 281474976710656)) = 7420703931462749 / 281474976710656"
    by (rule fl_value [where e = "4" and k = "7420703931462749"]; simp)
  have f5: "fl ((3275345183542179 / 18014398509481984) * 10) = 1023545369856931 / 562949953421312"
    by (rule fl_value [where e = "0" and k = "8188362958855448"]; simp)
  have f6: "fl ((7420703931462749 / 281474976710656) - (1023545369856931 / 562949953421312)) = 1727232811633571 / 70368744177664"
    by (rule fl_value [where e = "4" and k = "6908931246534284"]; simp)
  have f7: "fl (3 * 5) = 15"
    by (rule fl_value [where e = "3" and k = "8444249301319680"]; simp)
  have f8: "fl (30 - 15) = 15"
    by (rule fl_value [where e = "3" and k = "8444249301319680"]; simp)
  have f9: "fl ((1727232811633571 / 70368744177664) + 15) = 2782763974298531 / 70368744177664"
    by (rule fl_value [where e = "5" and k = "5565527948597062"]; simp)
  have f10: "fl ((2782763974298531 / 70368744177664) + 30) = 4893826299628451 / 70368744177664"
    by (rule fl_value [where e = "6" and k = "4893826299628451"]; simp)
  have f11: "fl ((4893826299628451 / 70368744177664) / 10) = 3915061039702761 / 562949953421312"
    by (rule fl_value [where e = "2" and k = "7830122079405522"]; simp)
  have e: "expenseScore eleven_expenses = 1727232811633571 / 70368744177664"
    unfolding expenseScore_def eleven_rates by (simp only: f1 f2 f3 f4 f5 f6 f7 f8 f9 f10 f11; simp)
  have p: "payrollScore 3 = 15"
    unfolding payrollScore_def by (simp only: f1 f2 f3 f4 f5 f6 f7 f8 f9 f10 f11; simp)
  have b: "budgetScore january2024 eleven_expenses [] = 30"
    by (simp add: budgetScore_def)
  show ?thesis
    unfolding scoreOutOf10_def Let_def e p b by (simp only: f1 f2 f3 f4 f5 f6 f7 f8 f9 f10 f11)
qed

text \<open>
  The claim as stated (the grade follows from \<^verbatim>\<open>overall_score\<close>) fails: with eleven
  expenses, ten of them anomalies and two pending, no budgets and three pending payrolls
  the score is 6.954545454545455. The reported \<^verbatim>\<open>overall_score\<close> is 7.0, for which the
  thresholds give B, and the grade is C.
\<close>

theorem calculateHealthScore_grade_counterexample:
  "overall_score (calculateHealthScore january2024 eleven_expenses [] 3) = 7
   \<and> grade (calculateHealthScore january2024 eleven_expenses [] 3) = GradeC"
proof -
  have f: "\<lfloor>(3915061039702761 / 562949953421312 :: real) * 10 + 1 / 2\<rfloor> = 70" by linarith
  show ?thesis
    by (simp add: calculateHealthScore_def Let_def eleven_score toFixed1_def f)
qed

subsection \<open>Budget component\<close>

lemma toFixed1_third:
  assumes "v = 0 \<or> v = 10 \<or> v = 20 \<or> v = 30"
  shows "toFixed1 (fl (v / 3)) = toFixed1 (v / 3)"
proof -
  have h1: "fl (10 / 3) = 7505999378950827 / 2251799813685248"
    by (rule fl_value [where e = "1" and k = "7505999378950827"]; simp)
  have h2: "fl (20 / 3) = 7505999378950827 / 1125899906842624"
    by (rule fl_value [where e = "2" and k = "7505999378950827"]; simp)
  have a: "\<lfloor>(7505999378950827 / 2251799813685248 :: real) * 10 + 1 / 2\<rfloor> = 33" by linarith
  have b: "\<lfloor>(7505999378950827 / 1125899906842624 :: real) * 10 + 1 / 2\<rfloor> = 67" by linarith
  have c: "\<lfloor>(10 / 3 :: real) * 10 + 1 / 2\<rfloor> = 33" "\<lfloor>(20 / 3 :: real) * 10 + 1 / 2\<rfloor> = 67"
    by linarith+
  from assms consider "v = 0" | "v = 10" | "v = 20" | "v = 30" by blast
  then show ?thesis
  proof cases
    case 1
    then show ?thesis by (simp add: fl_0)
  next
    case 2
    then show ?thesis unfolding 2 h1 by (simp add: toFixed1_def a c)
  next
    case 3
    then show ?thesis unfolding 3 h2 by (simp add: toFixed1_def b c)
  next
    case 4
    then show ?thesis by (simp add: fl_10)
  qed
qed

text \<open>
  C5 (as amended). The budget component starts at 30 and loses 10 for each budget of
  the list, active or not, whose category's spend in the current calendar month exceeds
  its monthly limit; it is floored at 0. It is what \<^verbatim>\<open>calculateHealthScore\<close> reports,
  divided by 3 and rounded, as \<^verbatim>\<open>budget_adherence\<close>.
\<close>

theorem budgetScore_every_exceeding_budget:
  "budgetScore now es bs
     = max 0 (30 - 10 * real (length
         (filter (\<lambda>b. monthSpend now es (budget.category b) > monthly_limit b) bs)))
   \<and> budget_adherence (calculateHealthScore now es bs pendingPayroll)
     = toFixed1 (budgetScore now es bs / 3)"
proof -
  have "budget_adherence (calculateHealthScore now es bs pendingPayroll)
          = toFixed1 (fl (budgetScore now es bs / 3))"
    by (simp add: calculateHealthScore_def Let_def)
  also have "\<dots> = toFixed1 (budgetScore now es bs / 3)"
    using budgetScore_values [of now es bs] by (rule toFixed1_third)
  finally show ?thesis using budgetScore_closed [of now es bs] by simp
qed

theorem budgetScore_every_exceeding_budget_witness:
  "budgetScore january2024 [mk_expense ''rent'' 100, mk_expense ''travel'' 10]
     [\<lparr> budget.category = ''rent'', monthly_limit = 50, budget.is_active = True \<rparr>,
      \<lparr> budget.category = ''travel'', monthly_limit = 50, budget.is_active = True \<rparr>] = 20"
proof -
  let ?es = "[mk_expense ''rent'' 100, mk_expense ''travel'' 10]"
  have "monthSpend january2024 ?es ''rent'' = 100" "monthSpend january2024 ?es ''travel'' = 10"
    by (simp_all add: monthSpend_def monthlyExpenses_def january2024_def mk_expense_def
        fl_constants)
  then show ?thesis
    by (simp add: budgetScore_every_exceeding_budget [THEN conjunct1])
qed

text \<open>
  The claim as stated (a budget that is not active never reduces the score) fails: one
  inactive budget of limit 50 for a category with a spend of 100 this month reduces the
  component from 30 to 20, and the reported \<^verbatim>\<open>budget_adherence\<close> from 10 to 6.7.
\<close>

theorem budgetScore_inactive_counterexample:
  "\<not> budget.is_active inactive_rent_budget
   \<and> budgetScore january2024 [mk_expense ''rent'' 100] [inactive_rent_budget] = 20
   \<and> budget_adherence
        (calculateHealthScore january2024 [mk_expense ''rent'' 100] [inactive_rent_budget] 0)
      = 67 / 10"
proof -
  have h1: "fl (10 / 3) = 7505999378950827 / 2251799813685248"
    by (rule fl_value [where e = "1" and k = "7505999378950827"]; simp)
  have h2: "fl (20 / 3) = 7505999378950827 / 1125899906842624"
    by (rule fl_value [where e = "2" and k = "7505999378950827"]; simp)
  have b: "budgetScore january2024 [mk_expense ''rent'' 100] [inactive_rent_budget] = 20"
    by (simp add: budgetScore_def budgetStep_def monthlyExpenses_def january2024_def
        mk_expense_def inactive_rent_budget_def fl_constants)
  have f: "\<lfloor>(7505999378950827 / 1125899906842624 :: real) * 10 + 1 / 2\<rfloor> = 67" by linarith
  show ?thesis
    by (simp add: b calculateHealthScore_def Let_def toFixed1_def h2 f)
      (simp add: inactive_rent_budget_def)
qed

subsection \<open>Cash-flow forecaster\<close>

lemma predictCashFlow_length:
  "length (predictCashFlow monthLabel es monthlyBudget monthsAhead) = monthsAhead"
  by (simp add: predictCashFlow_def Let_def)

lemma addToMonth_nonempty: "addToMonth k a m \<noteq> []"
  by (cases m) (auto split: if_splits)

lemma monthlyTotals_nonempty: "es \<noteq> [] \<Longrightarrow> monthlyTotals es \<noteq> []"
proof (induction es rule: rev_induct)
  case Nil
  then show ?case by simp
next
  case (snoc e es)
  show ?case by (simp add: monthlyTotals_def addToMonth_nonempty)
qed

lemma round_half_up_mono: "a \<le> b \<Longrightarrow> \<lfloor>a + 1 / 2\<rfloor> \<le> \<lfloor>b + 1 / 2\<rfloor>" for a b :: real
  by (intro floor_mono) simp

text \<open>
  What does hold of the interval: with a non-empty history every prediction is finite,
  and a prediction whose rounded value is positive lies within its interval.
\<close>

lemma predictCashFlow_interval_positive:
  assumes "es \<noteq> []" and "i < monthsAhead"
  shows "\<exists>x lo hi.
           predicted_expenses (predictCashFlow monthLabel es monthlyBudget monthsAhead ! i) = Fin x
           \<and> confidence_interval (predictCashFlow monthLabel es monthlyBudget monthsAhead ! i)
               = (Fin lo, Fin hi)
           \<and> (0 < x \<longrightarrow> lo \<le> x \<and> x \<le> hi)"
proof -
  let ?totals = "map snd (monthlyTotals es)"
  define trend where "trend = (if length ?totals > 1
                   then (hd ?totals - last ?totals) / real (length ?totals) else 0)"
  define a where "a = foldl (\<lambda>sum val. sum + val) 0 ?totals / real (length ?totals)"
  define v where "v = a + trend * real (Suc i)"
  have ne: "real (length ?totals) \<noteq> 0"
    using monthlyTotals_nonempty [OF assms(1)] by simp
  then have avg: "js_divide (foldl (\<lambda>sum val. sum + val) 0 ?totals) (real (length ?totals)) = Fin a"
    by (simp add: js_divide_def a_def)
  have nth: "[1 ..< Suc monthsAhead] ! i = Suc i"
    using assms(2) by (simp add: nth_upt del: upt_Suc)
  have p: "predicted_expenses (predictCashFlow monthLabel es monthlyBudget monthsAhead ! i)
             = Fin (of_int \<lfloor>v + 1 / 2\<rfloor>)"
    and c: "confidence_interval (predictCashFlow monthLabel es monthlyBudget monthsAhead ! i)
             = (Fin (of_int \<lfloor>v - v * 0.15 + 1 / 2\<rfloor>), Fin (of_int \<lfloor>v + v * 0.15 + 1 / 2\<rfloor>))"
    using assms(2) unfolding predictCashFlow_def Let_def avg trend_def [symmetric]
    by (simp_all add: nth js_minus_def v_def del: upt_Suc)
  have "0 < (of_int \<lfloor>v + 1 / 2\<rfloor> :: real) \<longrightarrow>
          (of_int \<lfloor>v - v * 0.15 + 1 / 2\<rfloor> :: real) \<le> of_int \<lfloor>v + 1 / 2\<rfloor>
          \<and> (of_int \<lfloor>v + 1 / 2\<rfloor> :: real) \<le> of_int \<lfloor>v + v * 0.15 + 1 / 2\<rfloor>"
  proof
    assume "0 < (of_int \<lfloor>v + 1 / 2\<rfloor> :: real)"
    then have "0 < \<lfloor>v + 1 / 2\<rfloor>" by simp
    then have "0 \<le> v" by linarith
    then have "v - v * 0.15 \<le> v" "v \<le> v + v * 0.15" by simp_all
    then have "\<lfloor>v - v * 0.15 + 1 / 2\<rfloor> \<le> \<lfloor>v + 1 / 2\<rfloor>" "\<lfloor>v + 1 / 2\<rfloor> \<le> \<lfloor>v + v * 0.15 + 1 / 2\<rfloor>"
      by (simp_all only: round_half_up_mono)
    then show "(of_int \<lfloor>v - v * 0.15 + 1 / 2\<rfloor> :: real) \<le> of_int \<lfloor>v + 1 / 2\<rfloor>
          \<and> (of_int \<lfloor>v + 1 / 2\<rfloor> :: real) \<le> of_int \<lfloor>v + v * 0.15 + 1 / 2\<rfloor>"
      by simp
  qed
  with p c show ?thesis by blast
qed

text \<open>
  C4. The number of predictions is \<^verbatim>\<open>monthsAhead\<close>, but the interval is not always
  ordered. With 10 spent in January and 1000 in February the average is 505 and the
  trend is (10 - 1000) / 2 = -495, so the second prediction is 505 - 990 = -485; its
  margin -72.75 is negative and the interval comes out as [-412, -558]: the lower bound
  is above the prediction and the upper bound below it.
\<close>

theorem predictCashFlow_negative_prediction:
  "let ps = predictCashFlow labelOfMonth
              [mk_expense ''rent'' 10, mk_expense_feb ''rent'' 1000] 20000 2
   in length ps = 2
      \<and> predicted_expenses (ps ! 1) = Fin (- 485)
      \<and> confidence_interval (ps ! 1) = (Fin (- 412), Fin (- 558))"
  by code_simp

subsection \<open>Pattern analyzer\<close>

lemma analyzeCategory_type:
  "p \<in> set (analyzeCategory entry) \<Longrightarrow> type p = increase \<or> type p = decrease"
  by (auto simp: analyzeCategory_def Let_def split: if_splits)

lemma analyzeCategory_few_points: "length (snd entry) < 3 \<Longrightarrow> analyzeCategory entry = []"
  by (simp add: analyzeCategory_def Let_def)

text \<open>
  What does hold of the stable pattern: there is at most one, it is the last pattern,
  and its text and priority are fixed.
\<close>

lemma analyzeSpendingPatterns_one_stable:
  "length (filter (\<lambda>p. type p = stable) (analyzeSpendingPatterns monthsAgo es k)) \<le> 1"
proof -
  have "filter (\<lambda>p. type p = stable) (concat (map analyzeCategory ts)) = []" for ts
    by (auto simp: filter_empty_conv dest: analyzeCategory_type)
  then show ?thesis by (simp add: analyzeSpendingPatterns_def Let_def)
qed

lemma analyzeSpendingPatterns_stable_fields:
  assumes "p \<in> set (analyzeSpendingPatterns monthsAgo es k)" and "type p = stable"
  shows "change p = [CHR 0xB1, CHR ''5'', CHR ''%''] \<and> priority p = low"
proof -
  have "q \<in> set (concat (map analyzeCategory ts)) \<Longrightarrow> type q \<noteq> stable" for q ts
    by (auto dest: analyzeCategory_type)
  with assms show ?thesis
    by (auto simp: analyzeSpendingPatterns_def Let_def split: if_splits)
qed

text \<open>
  C7. A category with fewer than three data points does contribute a pattern. With one
  rent expense followed by four equal travel expenses, no category has an increase or a
  decrease; travel is the first category with at least three data points, and the
  stable pattern names rent, which has one.
\<close>

theorem analyzeSpendingPatterns_stable_single_point:
  "analyzeSpendingPatterns monthsBeforeNow
     [mk_expense ''rent'' 100, mk_expense ''travel'' 10, mk_expense ''travel'' 10,
      mk_expense ''travel'' 10, mk_expense ''travel'' 10] 6
   = [\<lparr> type = stable, spendingPattern.category = ''rent'',
        change = [CHR 0xB1, CHR ''5'', CHR ''%''],
        recommendation = ''Spending is stable and predictable'',
        priority = low \<rparr>]"
  by code_simp

subsection \<open>Divisions by zero\<close>

text \<open>
  C8. Neither division is guarded. On an empty history the forecaster divides 0 by 0:
  each of the predictions has not-a-number as its value and as both bounds. With the
  amounts 50, 0, 0 in a category the newer half averages 50 and the older half 0: the
  analyzer reports an increase of infinity percent.
\<close>

theorem unguarded_divisions:
  "map predicted_expenses (predictCashFlow labelOfMonth [] 20000 3) = [NaN, NaN, NaN]
   \<and> map confidence_interval (predictCashFlow labelOfMonth [] 20000 3)
       = [(NaN, NaN), (NaN, NaN), (NaN, NaN)]
   \<and> map change
       (analyzeSpendingPatterns monthsBeforeNow
          [mk_expense ''software'' 50, mk_expense ''software'' 0, mk_expense ''software'' 0] 6)
       = [''+Infinity%'']"
  by code_simp

end

